theory Spec2Isabelle
  imports Complex_Main "HOL-Library.Word"
begin

section \<open>JavaScript strings and the whitespace tokenizer\<close>

text \<open>
  A JavaScript string is a sequence of UTF-16 code units.  The regular expression class
  \<^verbatim>\<open>\s\<close> and \<^verbatim>\<open>String.prototype.trim\<close> use the same set of code units:
  the ECMAScript WhiteSpace and LineTerminator productions.
\<close>

type_synonym jschar = "16 word"
type_synonym jsstring = "jschar list"

definition is_ws :: "jschar \<Rightarrow> bool" where
  "is_ws c \<longleftrightarrow>
     c = 0x0009 \<or> c = 0x000A \<or> c = 0x000B \<or> c = 0x000C \<or> c = 0x000D \<or> c = 0x0020 \<or>
     c = 0x00A0 \<or> c = 0x1680 \<or> (0x2000 \<le> c \<and> c \<le> 0x200A) \<or>
     c = 0x2028 \<or> c = 0x2029 \<or> c = 0x202F \<or> c = 0x205F \<or> c = 0x3000 \<or> c = 0xFEFF"

text \<open>Embedding of ASCII literals, used to write concrete texts.\<close>

definition ascii :: "string \<Rightarrow> jsstring" where
  "ascii s = map (\<lambda>c. of_nat (of_char c)) s"

text \<open>
  \<^verbatim>\<open>text.split(/\s+/)\<close>: the pieces between maximal runs of whitespace, including the
  empty pieces before a leading run and after a trailing run.
\<close>

function split_ws :: "jsstring \<Rightarrow> jsstring list" where
  "split_ws s =
     (case dropWhile (\<lambda>c. \<not> is_ws c) s of
        [] \<Rightarrow> [takeWhile (\<lambda>c. \<not> is_ws c) s]
      | _ # r \<Rightarrow> takeWhile (\<lambda>c. \<not> is_ws c) s # split_ws (dropWhile is_ws r))"
  by pat_completeness auto
termination
proof (relation "measure length")
  show "wf (measure length)" by simp
next
  fix s :: jsstring and x r
  assume a: "dropWhile (\<lambda>c. \<not> is_ws c) s = x # r"
  have "length (dropWhile is_ws r) \<le> length r"
    by (rule length_dropWhile_le)
  also have "\<dots> < length (dropWhile (\<lambda>c. \<not> is_ws c) s)"
    using a by simp
  also have "\<dots> \<le> length s"
    by (rule length_dropWhile_le)
  finally show "(dropWhile is_ws r, s) \<in> measure length" by simp
qed

declare split_ws.simps [simp del]

text \<open>\<^verbatim>\<open>text.split(/\s+/).filter(word => word.length > 0)\<close>\<close>

definition text_words :: "jsstring \<Rightarrow> jsstring list" where
  "text_words text = filter (\<lambda>word. 0 < length word) (split_ws text)"

text \<open>\<^verbatim>\<open>text.trim()\<close>\<close>

definition trim :: "jsstring \<Rightarrow> jsstring" where
  "trim s = rev (dropWhile is_ws (rev (dropWhile is_ws s)))"

text \<open>\<^verbatim>\<open>chunkWords.join(' ')\<close>\<close>

fun join_sp :: "jsstring list \<Rightarrow> jsstring" where
  "join_sp [] = []"
| "join_sp [w] = w"
| "join_sp (w # v # ws) = w @ 0x0020 # join_sp (v # ws)"

text \<open>
  \<^verbatim>\<open>Array.prototype.slice(start, end)\<close> on integer arguments: a negative index counts
  from the end of the array, and both indices are clamped to the array.
\<close>

definition js_slice :: "'a list \<Rightarrow> int \<Rightarrow> int \<Rightarrow> 'a list" where
  "js_slice xs start stop =
     (let len = int (length xs);
          k = (if start < 0 then max (len + start) 0 else min start len);
          final = (if stop < 0 then max (len + stop) 0 else min stop len)
      in take (nat (final - k)) (drop (nat k) xs))"

section \<open>The chunker\<close>

text \<open>
  The \<^verbatim>\<open>while\<close> loop of \<^verbatim>\<open>chunkText\<close>, with the loop variables
  \<^verbatim>\<open>startIndex\<close> and \<^verbatim>\<open>chunks\<close> as arguments.  The word counts
  \<^verbatim>\<open>chunkSize\<close> and \<^verbatim>\<open>overlap\<close> are integers.
\<close>

function chunk_loop ::
  "jsstring list \<Rightarrow> int \<Rightarrow> int \<Rightarrow> int \<Rightarrow> jsstring list \<Rightarrow> jsstring list" where
  "chunk_loop words chunkSize overlap startIndex chunks =
     (if startIndex < int (length words) then
        let endIndex = min (startIndex + chunkSize) (int (length words));
            chunkWords = js_slice words startIndex endIndex;
            chunk = join_sp chunkWords;
            chunks' = chunks @ [chunk];
            startIndex' = startIndex + (chunkSize - overlap)
        in if startIndex' \<le> int (length chunks') - 1 \<and> overlap \<ge> chunkSize then chunks'
           else chunk_loop words chunkSize overlap startIndex' chunks'
      else chunks)"
  by pat_completeness auto
termination
  by (relation "measure (\<lambda>(words, chunkSize, overlap, startIndex, chunks).
         if overlap < chunkSize then nat (int (length words) - startIndex)
         else nat (startIndex - int (length chunks)))") auto

declare chunk_loop.simps [simp del]

text \<open>A word of the tokenizer's output: non-empty and free of whitespace.\<close>

definition word_ok :: "jsstring \<Rightarrow> bool" where
  "word_ok w \<longleftrightarrow> w \<noteq> [] \<and> (\<forall>c\<in>set w. \<not> is_ws c)"

definition chunkText :: "jsstring \<Rightarrow> int \<Rightarrow> int \<Rightarrow> jsstring list" where
  "chunkText text chunkSize overlap =
     (let words = text_words text in
      if int (length words) \<le> chunkSize then [trim text]
      else chunk_loop words chunkSize overlap 0 [])"

section \<open>Metadata values\<close>

text \<open>
  Metadata objects are JSON objects: a mapping from keys to JSON values.  Object spread
  \<^verbatim>\<open>{...a, k: v}\<close> is map update.
\<close>

datatype json = JNull | JBool bool | JNum real | JStr jsstring
  | JArr "json list" | JObj "(jsstring \<times> json) list"

type_synonym metadata = "jsstring \<rightharpoonup> json"

type_synonym embedding = "real list"

text \<open>JavaScript truthiness of a JSON value, as used by \<^verbatim>\<open>||\<close>.\<close>

fun truthy :: "json \<Rightarrow> bool" where
  "truthy JNull = False"
| "truthy (JBool b) = b"
| "truthy (JNum x) = (x \<noteq> 0)"
| "truthy (JStr s) = (s \<noteq> [])"
| "truthy (JArr xs) = True"
| "truthy (JObj kvs) = True"

text \<open>The entries of \<^verbatim>\<open>models\<close> in \<^verbatim>\<open>config.js\<close>.\<close>

definition models_chat :: jsstring where
  "models_chat = ascii ''gpt-4o-mini''"

definition models_chatAdvanced :: jsstring where
  "models_chatAdvanced = ascii ''gpt-4o''"

section \<open>PostgreSQL floating-point values\<close>

text \<open>
  A \<^verbatim>\<open>float8\<close> value is a number or NaN.  The numbers are taken as reals (rounding
  and the infinities are not modelled).  PostgreSQL orders \<^verbatim>\<open>float8\<close> with NaN equal
  to NaN and greater than every number, both in comparisons and in \<^verbatim>\<open>ORDER BY\<close>;
  arithmetic with NaN gives NaN.
\<close>

datatype float8 = Num real | NaN

instantiation float8 :: linorder
begin

fun less_eq_float8 :: "float8 \<Rightarrow> float8 \<Rightarrow> bool" where
  "less_eq_float8 (Num x) (Num y) = (x \<le> y)"
| "less_eq_float8 NaN (Num y) = False"
| "less_eq_float8 a NaN = True"

definition less_float8 :: "float8 \<Rightarrow> float8 \<Rightarrow> bool" where
  "less_float8 a b \<longleftrightarrow> a \<le> b \<and> \<not> b \<le> a"

instance
proof
  fix x y z :: float8
  show "(x < y) = (x \<le> y \<and> \<not> y \<le> x)"
    by (simp add: less_float8_def)
  show "x \<le> x"
    by (cases x) simp_all
  show "x \<le> y \<Longrightarrow> y \<le> z \<Longrightarrow> x \<le> z"
    by (cases x; cases y; cases z) simp_all
  show "x \<le> y \<Longrightarrow> y \<le> x \<Longrightarrow> x = y"
    by (cases x; cases y) simp_all
  show "x \<le> y \<or> y \<le> x"
    by (cases x; cases y) auto
qed

end

text \<open>\<^verbatim>\<open>1 - d\<close> and \<^verbatim>\<open>x * 100\<close> on these values.\<close>

fun one_minus :: "float8 \<Rightarrow> float8" where
  "one_minus (Num x) = Num (1 - x)"
| "one_minus NaN = NaN"

fun times100 :: "float8 \<Rightarrow> float8" where
  "times100 (Num x) = Num (x * 100)"
| "times100 NaN = NaN"

section \<open>The similarity search function of the database\<close>

text \<open>
  A row of the table \<^verbatim>\<open>embeddedinfo\<close>; the columns \<^verbatim>\<open>metadata\<close> and
  \<^verbatim>\<open>embedding\<close> are nullable.
\<close>

record ('m, 'v) embeddedinfo =
  t_id :: int
  t_filename :: jsstring
  t_content :: jsstring
  t_metadata :: "'m option"
  t_embedding :: "'v option"
  t_created_at :: jsstring

text \<open>A row of the table returned by \<^verbatim>\<open>match_information\<close>.\<close>

record 'm search_row =
  r_id :: int
  r_content :: jsstring
  r_metadata :: "'m option"
  similarity :: float8

text \<open>
  \<^verbatim>\<open>match_information\<close> of \<^verbatim>\<open>create-table.sql\<close>.  The pgvector operator
  \<^verbatim>\<open><=>\<close> (cosine distance) and the jsonb operator \<^verbatim>\<open>@>\<close> (containment) are
  operators of the database and are parameters here; the distance is a \<^verbatim>\<open>float8\<close>
  value, which is NaN when one of the two vectors has norm zero.  A comparison with a NULL
  operand is not true, so a row without embedding, and a row without metadata when a filter
  is given, is not selected.  A negative \<^verbatim>\<open>LIMIT\<close> is an error of the query.
  \<^verbatim>\<open>ORDER BY\<close> leaves the order of rows with equal distance open; the model keeps
  their table order.
\<close>

definition where_clause ::
  "('v \<Rightarrow> 'v \<Rightarrow> float8) \<Rightarrow> ('m \<Rightarrow> 'm \<Rightarrow> bool) \<Rightarrow> 'v \<Rightarrow> float8 \<Rightarrow> 'm option \<Rightarrow>
   ('m, 'v) embeddedinfo \<Rightarrow> (float8 \<times> ('m, 'v) embeddedinfo) option" where
  "where_clause cosine_distance jsonb_contains query_embedding match_threshold filter' row =
     (case t_embedding row of
        None \<Rightarrow> None
      | Some e \<Rightarrow>
          let d = cosine_distance e query_embedding;
              filter_ok = (case filter' of
                             None \<Rightarrow> True
                           | Some f \<Rightarrow> (case t_metadata row of
                                         None \<Rightarrow> False
                                       | Some m \<Rightarrow> jsonb_contains m f))
          in if filter_ok \<and> one_minus d > match_threshold then Some (d, row) else None)"

text \<open>The \<^verbatim>\<open>SELECT\<close> list, for a table row together with its distance.\<close>

definition select_list :: "float8 \<times> ('m, 'v) embeddedinfo \<Rightarrow> 'm search_row" where
  "select_list p =
     \<lparr>r_id = t_id (snd p), r_content = t_content (snd p), r_metadata = t_metadata (snd p),
      similarity = one_minus (fst p)\<rparr>"

definition match_information ::
  "('v \<Rightarrow> 'v \<Rightarrow> float8) \<Rightarrow> ('m \<Rightarrow> 'm \<Rightarrow> bool) \<Rightarrow> ('m, 'v) embeddedinfo list \<Rightarrow>
   'v \<Rightarrow> int \<Rightarrow> float8 \<Rightarrow> 'm option \<Rightarrow> string + 'm search_row list" where
  "match_information cosine_distance jsonb_contains table query_embedding match_count
       match_threshold filter' =
     (if match_count < 0 then Inl ''LIMIT must not be negative''
      else Inr (map select_list
             (take (nat match_count)
                (sort_key fst
                   (List.map_filter
                      (where_clause cosine_distance jsonb_contains query_embedding
                         match_threshold filter') table)))))"

section \<open>External services\<close>

text \<open>
  The calls that leave the program.  A call that throws is \<open>Inl\<close> of the error's message.
  \<^item> \<open>embeddings_create\<close>: \<^verbatim>\<open>openai.embeddings.create\<close>, reduced to the vector it
    returns;
  \<^item> \<open>rpc_match_information\<close>: \<^verbatim>\<open>supabase.rpc("match_information", ...)\<close>, which
    returns an object with the fields \<^verbatim>\<open>data\<close> and \<^verbatim>\<open>error\<close>;
  \<^item> \<open>chat_answer\<close>: the \<^verbatim>\<open>gpt-4o\<close> completion of \<^verbatim>\<open>getEnhancedAnswer\<close>, as a
    function of the context string and the question that are inserted into the fixed
    prompt texts;
  \<^item> \<open>chat_extract\<close>: the \<^verbatim>\<open>gpt-4o-mini\<close> completion of
    \<^verbatim>\<open>extractMetadataWithAI\<close>, as a function of the content, reduced to
    \<^verbatim>\<open>response.choices[0].message.content\<close>;
  \<^item> \<open>json_parse\<close>, \<open>extname\<close>, \<open>to_fixed1\<close>, \<open>to_text\<close>: \<^verbatim>\<open>JSON.parse\<close>,
    \<^verbatim>\<open>path.extname\<close>, \<^verbatim>\<open>Number.prototype.toFixed(1)\<close> and the conversion of a
    value to a string in a template literal;
  \<^item> \<open>skills_type_error\<close>: the message of the \<^verbatim>\<open>TypeError\<close> that the engine throws
    for \<^verbatim>\<open>metadata.skills.slice(0, 5).join(', ')\<close> when \<^verbatim>\<open>skills\<close> is not an array;
  \<^item> \<open>now_iso\<close>, \<open>duration_text\<close>: the clock readings;
  \<^item> \<open>read_info_files\<close>: the directory listing and file reads of \<^verbatim>\<open>readInfoFiles\<close>;
  \<^item> \<open>db_delete\<close>, \<open>db_insert\<close>: whether the delete and an insert on
    \<^verbatim>\<open>embeddedinfo\<close> throw (\<open>Inl\<close>), return an error (\<open>Inr (Some e)\<close>) or succeed.
\<close>

record rpc_response =
  rpc_data :: "metadata search_row list option"
  rpc_error :: "jsstring option"

record completion =
  c_content :: "jsstring option"
  c_total_tokens :: "real option"

record info_file =
  f_filename :: jsstring
  f_content :: jsstring

record embedded_result =
  e_filename :: jsstring
  e_content :: jsstring
  e_embedding :: embedding
  e_metadata :: metadata
  e_createdAt :: jsstring

record services =
  embeddings_create :: "jsstring \<Rightarrow> jsstring + embedding"
  rpc_match_information ::
    "embedding \<Rightarrow> int \<Rightarrow> real \<Rightarrow> metadata option \<Rightarrow> jsstring + rpc_response"
  chat_answer :: "jsstring \<Rightarrow> jsstring \<Rightarrow> jsstring + completion"
  chat_extract :: "jsstring \<Rightarrow> jsstring + jsstring"
  json_parse :: "jsstring \<Rightarrow> jsstring + metadata"
  extname :: "jsstring \<Rightarrow> jsstring"
  to_fixed1 :: "float8 \<Rightarrow> jsstring"
  skills_type_error :: jsstring
  to_text :: "json \<Rightarrow> jsstring"
  now_iso :: jsstring
  duration_text :: jsstring
  read_info_files :: "jsstring + info_file list"
  db_delete :: "jsstring + jsstring option"
  db_insert :: "embedded_result \<Rightarrow> jsstring + jsstring option"

section \<open>Retrieval\<close>

record retrieval =
  ret_data :: "metadata search_row list option"
  ret_error :: "jsstring option"
  ret_queryEmbedding :: "embedding option"
  ret_matchCount :: int

definition generateQueryEmbedding :: "services \<Rightarrow> jsstring \<Rightarrow> jsstring + embedding" where
  "generateQueryEmbedding sv query = embeddings_create sv query"

text \<open>
  \<^verbatim>\<open>retrieveInformation\<close>.  A throw of the embedding call or of the RPC call is caught by
  the function's \<^verbatim>\<open>catch\<close>; an error returned by the RPC call is handled by the
  \<^verbatim>\<open>if (error)\<close> branch.
\<close>

definition retrieveInformation ::
  "services \<Rightarrow> jsstring \<Rightarrow> int \<Rightarrow> real \<Rightarrow> metadata option \<Rightarrow> retrieval" where
  "retrieveInformation sv userQuery matchCount matchThreshold metadataFilter =
     (case generateQueryEmbedding sv userQuery of
        Inl e \<Rightarrow> \<lparr>ret_data = None, ret_error = Some e, ret_queryEmbedding = None,
                   ret_matchCount = matchCount\<rparr>
      | Inr queryEmbedding \<Rightarrow>
          (case rpc_match_information sv queryEmbedding matchCount matchThreshold metadataFilter of
             Inl e \<Rightarrow> \<lparr>ret_data = None, ret_error = Some e, ret_queryEmbedding = None,
                        ret_matchCount = matchCount\<rparr>
           | Inr response \<Rightarrow>
               (case rpc_error response of
                  Some e \<Rightarrow> \<lparr>ret_data = None, ret_error = Some e,
                              ret_queryEmbedding = Some queryEmbedding,
                              ret_matchCount = matchCount\<rparr>
                | None \<Rightarrow> \<lparr>ret_data = rpc_data response, ret_error = None,
                            ret_queryEmbedding = Some queryEmbedding,
                            ret_matchCount = matchCount\<rparr>)))"




section \<open>Answer synthesis\<close>

text \<open>\<^verbatim>\<open>Array.prototype.join(sep)\<close> on strings.\<close>

fun js_join :: "jsstring \<Rightarrow> jsstring list \<Rightarrow> jsstring" where
  "js_join sep [] = []"
| "js_join sep [w] = w"
| "js_join sep (w # v # ws) = w @ sep @ js_join sep (v # ws)"

text \<open>\<^verbatim>\<open>meta.key\<close> when it is truthy.\<close>

definition get_truthy :: "metadata \<Rightarrow> jsstring \<Rightarrow> json option" where
  "get_truthy meta key =
     (case meta key of None \<Rightarrow> None | Some v \<Rightarrow> if truthy v then Some v else None)"

text \<open>\<^verbatim>\<open>metadata?.source_filename || dflt\<close>\<close>

definition source_filename_or :: "metadata option \<Rightarrow> json \<Rightarrow> json" where
  "source_filename_or meta dflt =
     (case meta of
        None \<Rightarrow> dflt
      | Some m \<Rightarrow> (case get_truthy m (ascii ''source_filename'') of None \<Rightarrow> dflt | Some v \<Rightarrow> v))"

definition metaParts :: "services \<Rightarrow> metadata \<Rightarrow> jsstring list" where
  "metaParts sv meta =
     (case get_truthy meta (ascii ''name'') of
        Some v \<Rightarrow> [ascii ''Name: '' @ to_text sv v] | None \<Rightarrow> []) @
     (case get_truthy meta (ascii ''location'') of
        Some v \<Rightarrow> [ascii ''Location: '' @ to_text sv v] | None \<Rightarrow> []) @
     (case get_truthy meta (ascii ''role'') of
        Some v \<Rightarrow> [ascii ''Role: '' @ to_text sv v] | None \<Rightarrow> []) @
     (case meta (ascii ''skills'') of
        Some (JArr xs) \<Rightarrow>
          [ascii ''Skills: '' @
           js_join (ascii '', '') (map (\<lambda>x. if x = JNull then [] else to_text sv x) xs)]
      | _ \<Rightarrow> []) @
     (case (get_truthy meta (ascii ''chunk_number''), get_truthy meta (ascii ''total_chunks'')) of
        (Some a, Some b) \<Rightarrow> [ascii ''Chunk: '' @ to_text sv a @ ascii ''/'' @ to_text sv b]
      | _ \<Rightarrow> [])"

text \<open>The text that \<^verbatim>\<open>constructPromptContext\<close> appends for the result at \<open>index\<close>.\<close>

definition context_section :: "services \<Rightarrow> nat \<Rightarrow> metadata search_row \<Rightarrow> jsstring" where
  "context_section sv index result =
     0x000A # ascii ''[Source '' @ to_text sv (JNum (real (index + 1))) @ ascii '': '' @
       to_text sv (source_filename_or (r_metadata result) (JStr (ascii ''Unknown source''))) @
       ascii '' ('' @ to_fixed1 sv (times100 (similarity result)) @ ascii ''% relevance)]'' @
       [0x000A] @
     ascii ''Content: '' @ r_content result @ [0x000A] @
     (case r_metadata result of
        None \<Rightarrow> []
      | Some meta \<Rightarrow>
          if length (metaParts sv meta) > 0
          then ascii ''Metadata: '' @ js_join (ascii '' | '') (metaParts sv meta) @ [0x000A]
          else []) @
     ascii ''---'' @ [0x000A]"

definition constructPromptContext ::
  "services \<Rightarrow> jsstring \<Rightarrow> metadata search_row list \<Rightarrow> jsstring" where
  "constructPromptContext sv question retrievedResults =
     concat (map (\<lambda>(index, result). context_section sv index result)
               (zip [0..<length retrievedResults] retrievedResults))"

record source_entry =
  sourceNumber :: nat
  s_filename :: json
  s_similarity :: float8
  similarityPercent :: jsstring
  contentPreview :: jsstring
  s_metadata :: metadata

record answer_context =
  retrievedCount :: nat
  ctx_model :: "jsstring option"
  tokensUsed :: "real option"

record enhanced_answer =
  a_answer :: "jsstring option"
  a_sources :: "source_entry list option"
  a_context :: "answer_context option"
  a_error :: "jsstring option"

definition no_information_answer :: jsstring where
  "no_information_answer =
     ascii (''I couldn'' @ [CHR 0x27] @ ''t find any relevant information in the '' @
            ''knowledge base to answer your question. Please try rephrasing your '' @
            ''question or ensure the relevant data has been ingested.'')"

definition format_source :: "services \<Rightarrow> nat \<Rightarrow> metadata search_row \<Rightarrow> source_entry" where
  "format_source sv index item =
     \<lparr>sourceNumber = index + 1,
      s_filename = source_filename_or (r_metadata item) (JStr (ascii ''Unknown'')),
      s_similarity = similarity item,
      similarityPercent = to_fixed1 sv (times100 (similarity item)) @ ascii ''%'',
      contentPreview = take 200 (r_content item) @
                       (if length (r_content item) > 200 then ascii ''...'' else []),
      s_metadata = (case r_metadata item of None \<Rightarrow> Map.empty | Some m \<Rightarrow> m)\<rparr>"

text \<open>
  \<^verbatim>\<open>getEnhancedAnswer\<close>.  \<^verbatim>\<open>retrieveInformation\<close> does not throw, so the only throw
  inside the \<^verbatim>\<open>try\<close> is that of the completion call.
\<close>

definition getEnhancedAnswer :: "services \<Rightarrow> jsstring \<Rightarrow> int \<Rightarrow> real \<Rightarrow> enhanced_answer" where
  "getEnhancedAnswer sv question matchCount matchThreshold =
     (let result = retrieveInformation sv question matchCount matchThreshold None in
      if ret_error result \<noteq> None \<or> ret_data result = None \<or> length (the (ret_data result)) = 0
      then \<lparr>a_answer = Some no_information_answer, a_sources = Some [],
            a_context = Some \<lparr>retrievedCount = 0, ctx_model = None, tokensUsed = None\<rparr>,
            a_error = None\<rparr>
      else
        let rows = the (ret_data result);
            contextString = constructPromptContext sv question rows
        in case chat_answer sv contextString question of
             Inl e \<Rightarrow> \<lparr>a_answer = None, a_sources = None, a_context = None, a_error = Some e\<rparr>
           | Inr completion \<Rightarrow>
               (case c_content completion of
                  None \<Rightarrow> \<lparr>a_answer = None, a_sources = None, a_context = None,
                            a_error = Some (ascii ''Failed to generate answer from GPT-4o'')\<rparr>
                | Some generatedAnswer \<Rightarrow>
                    if generatedAnswer = []
                    then \<lparr>a_answer = None, a_sources = None, a_context = None,
                          a_error = Some (ascii ''Failed to generate answer from GPT-4o'')\<rparr>
                    else \<lparr>a_answer = Some generatedAnswer,
                          a_sources = Some (map (\<lambda>(index, item). format_source sv index item)
                                              (zip [0..<length rows] rows)),
                          a_context = Some \<lparr>retrievedCount = length rows,
                                            ctx_model = Some models_chatAdvanced,
                                            tokensUsed = (case c_total_tokens completion of
                                                            None \<Rightarrow> None
                                                          | Some t \<Rightarrow> if t = 0 then None else Some t)\<rparr>,
                          a_error = None\<rparr>))"

section \<open>Ingestion\<close>

text \<open>
  \<^verbatim>\<open>extractMetadataWithAI\<close>.  The \<^verbatim>\<open>try\<close> block fails when the completion call
  throws, when \<^verbatim>\<open>JSON.parse\<close> throws, or when the logging of the skills throws; all
  three end in the \<^verbatim>\<open>catch\<close> block.

  The logging line \<^verbatim>\<open>metadata.skills.slice(0, 5).join(', ')\<close> runs when
  \<^verbatim>\<open>metadata.skills?.length\<close> is truthy.  It throws a \<^verbatim>\<open>TypeError\<close> when
  \<^verbatim>\<open>skills\<close> is a non-empty string (the slice of a string has no \<^verbatim>\<open>join\<close>) or
  an object with a truthy \<^verbatim>\<open>length\<close> (which has no \<^verbatim>\<open>slice\<close> function); an
  array is logged, and any other value has no \<^verbatim>\<open>length\<close>.
\<close>

definition skills_log_throws :: "metadata \<Rightarrow> bool" where
  "skills_log_throws metadata =
     (case metadata (ascii ''skills'') of
        Some (JStr s) \<Rightarrow> s \<noteq> []
      | Some (JObj kvs) \<Rightarrow>
          (case map_of (rev kvs) (ascii ''length'') of Some v \<Rightarrow> truthy v | None \<Rightarrow> False)
      | _ \<Rightarrow> False)"

definition file_type_of :: "services \<Rightarrow> jsstring \<Rightarrow> jsstring" where
  "file_type_of sv filename =
     (if drop 1 (extname sv filename) = [] then ascii ''txt'' else drop 1 (extname sv filename))"

definition basic_metadata :: "services \<Rightarrow> jsstring \<Rightarrow> jsstring \<Rightarrow> metadata" where
  "basic_metadata sv filename message =
     [ascii ''source_filename'' \<mapsto> JStr filename,
      ascii ''file_type'' \<mapsto> JStr (file_type_of sv filename),
      ascii ''extracted_at'' \<mapsto> JStr (now_iso sv),
      ascii ''extraction_error'' \<mapsto> JStr message]"

definition extractMetadataWithAI :: "services \<Rightarrow> jsstring \<Rightarrow> jsstring \<Rightarrow> metadata" where
  "extractMetadataWithAI sv content filename =
     (case chat_extract sv content of
        Inl message \<Rightarrow> basic_metadata sv filename message
      | Inr text \<Rightarrow>
          (case json_parse sv text of
             Inl message \<Rightarrow> basic_metadata sv filename message
           | Inr extractedMetadata \<Rightarrow>
               let metadata = extractedMetadata
                     (ascii ''source_filename'' \<mapsto> JStr filename,
                      ascii ''file_type'' \<mapsto> JStr (file_type_of sv filename),
                      ascii ''extracted_at'' \<mapsto> JStr (now_iso sv),
                      ascii ''extraction_model'' \<mapsto> JStr models_chat)
               in if skills_log_throws metadata
                  then basic_metadata sv filename (skills_type_error sv)
                  else metadata))"

definition generateEmbedding :: "services \<Rightarrow> jsstring \<Rightarrow> jsstring + embedding" where
  "generateEmbedding sv content = embeddings_create sv content"

text \<open>
  The chunk loop of \<^verbatim>\<open>ingestAndEmbed\<close> from index \<open>i\<close> on; \<open>rest\<close> are the chunks
  from \<open>i\<close> on.  A throw of the embedding call leaves the loop by the \<^verbatim>\<open>catch\<close> of the
  file, and the results pushed so far stay in \<^verbatim>\<open>embeddedResults\<close>.
\<close>

fun embed_chunks ::
  "services \<Rightarrow> jsstring \<Rightarrow> metadata \<Rightarrow> nat \<Rightarrow> nat \<Rightarrow> jsstring list \<Rightarrow>
   embedded_result list \<Rightarrow> embedded_result list" where
  "embed_chunks sv filename fileMetadata totalChunks i [] embeddedResults = embeddedResults"
| "embed_chunks sv filename fileMetadata totalChunks i (chunk # rest) embeddedResults =
     (case generateEmbedding sv chunk of
        Inl e \<Rightarrow> embeddedResults
      | Inr embedding \<Rightarrow>
          embed_chunks sv filename fileMetadata totalChunks (i + 1) rest
            (embeddedResults @
             [\<lparr>e_filename = filename, e_content = chunk, e_embedding = embedding,
               e_metadata = fileMetadata
                 (ascii ''chunk_index'' \<mapsto> JNum (real i),
                  ascii ''chunk_number'' \<mapsto> JNum (real (i + 1)),
                  ascii ''total_chunks'' \<mapsto> JNum (real totalChunks),
                  ascii ''chunk_size_chars'' \<mapsto> JNum (real (length chunk)),
                  ascii ''chunk_size_words'' \<mapsto> JNum (real (length (split_ws chunk)))),
               e_createdAt = now_iso sv\<rparr>]))"

definition ingest_file :: "services \<Rightarrow> embedded_result list \<Rightarrow> info_file \<Rightarrow> embedded_result list" where
  "ingest_file sv embeddedResults file =
     (let fileMetadata = extractMetadataWithAI sv (f_content file) (f_filename file);
          chunks = chunkText (f_content file) 300 50;
          totalChunks = length chunks
      in embed_chunks sv (f_filename file) fileMetadata totalChunks 0 chunks embeddedResults)"

definition ingestAndEmbed ::
  "services \<Rightarrow> embedded_result list \<Rightarrow> jsstring + embedded_result list" where
  "ingestAndEmbed sv embeddedResults =
     (case read_info_files sv of
        Inl e \<Rightarrow> Inl e
      | Inr files \<Rightarrow> Inr (foldl (ingest_file sv) embeddedResults files))"

text \<open>The persisted table together with the next value of its \<^verbatim>\<open>bigserial\<close> key.\<close>

record database =
  table_rows :: "(metadata, embedding) embeddedinfo list"
  next_id :: int

record clear_result =
  cl_success :: bool
  cl_error :: "jsstring option"

text \<open>
  \<^verbatim>\<open>clearDatabase\<close>: the delete removes the rows with \<^verbatim>\<open>id <> 0\<close>; when it fails the
  table is unchanged and the failure is returned, not thrown.
\<close>

definition clearDatabase :: "services \<Rightarrow> database \<Rightarrow> clear_result \<times> database" where
  "clearDatabase sv db =
     (case db_delete sv of
        Inr None \<Rightarrow> (\<lparr>cl_success = True, cl_error = None\<rparr>,
                     db\<lparr>table_rows := filter (\<lambda>row. t_id row = 0) (table_rows db)\<rparr>)
      | Inr (Some e) \<Rightarrow> (\<lparr>cl_success = False, cl_error = Some e\<rparr>, db)
      | Inl e \<Rightarrow> (\<lparr>cl_success = False, cl_error = Some e\<rparr>, db))"

definition insert_row :: "services \<Rightarrow> database \<Rightarrow> embedded_result \<Rightarrow> database" where
  "insert_row sv db result =
     (case db_insert sv result of
        Inr None \<Rightarrow>
          \<lparr>table_rows = table_rows db @
             [\<lparr>t_id = next_id db, t_filename = e_filename result, t_content = e_content result,
               t_metadata = Some (e_metadata result), t_embedding = Some (e_embedding result),
               t_created_at = e_createdAt result\<rparr>],
           next_id = next_id db + 1\<rparr>
      | _ \<Rightarrow> db)"

definition insertEmbeddedInfoToSupabase ::
  "services \<Rightarrow> embedded_result list \<Rightarrow> database \<Rightarrow> database" where
  "insertEmbeddedInfoToSupabase sv embeddedResults db =
     (if length embeddedResults = 0 then db else foldl (insert_row sv) db embeddedResults)"

record ingestion_result =
  success :: bool
  filesProcessed :: "nat option"
  chunksCreated :: "nat option"
  duration :: "jsstring option"
  i_message :: jsstring
  i_error :: "jsstring option"

text \<open>
  \<^verbatim>\<open>runIngestion\<close>, from a state in which \<^verbatim>\<open>embeddedResults\<close> has just been reset.
  The value returned by \<^verbatim>\<open>clearDatabase\<close> is not used.
\<close>

definition runIngestion :: "services \<Rightarrow> bool \<Rightarrow> database \<Rightarrow> ingestion_result \<times> database" where
  "runIngestion sv clearFirst db =
     (let db1 = (if clearFirst then snd (clearDatabase sv db) else db) in
      case ingestAndEmbed sv [] of
        Inl e \<Rightarrow> (\<lparr>success = False, filesProcessed = None, chunksCreated = None,
                    duration = None, i_message = ascii ''Ingestion failed'', i_error = Some e\<rparr>, db1)
      | Inr embeddedResults \<Rightarrow>
          (\<lparr>success = True,
            filesProcessed = Some (length (remdups (map e_filename embeddedResults))),
            chunksCreated = Some (length embeddedResults),
            duration = Some (duration_text sv @ ascii ''s''),
            i_message = ascii ''Ingestion completed successfully'', i_error = None\<rparr>,
           insertEmbeddedInfoToSupabase sv embeddedResults db1))"

section \<open>Sample data\<close>

text \<open>A small table, a set of services and a database state, used to run the definitions.\<close>

text \<open>
  An instance of the distance operator: the cosine distance over the reals, which is NaN
  when one of the vectors has norm zero.
\<close>

definition ideal_cosine_distance :: "embedding \<Rightarrow> embedding \<Rightarrow> float8" where
  "ideal_cosine_distance a b =
     (let dot = sum_list (map2 (*) a b);
          norma = sum_list (map (\<lambda>x. x * x) a);
          normb = sum_list (map (\<lambda>x. x * x) b)
      in if norma = 0 \<or> normb = 0 then NaN
         else Num (1 - max (- 1) (min 1 (dot / sqrt (norma * normb)))))"

text \<open>An instance of the containment operator on objects whose values are scalars.\<close>

definition contains_pairs :: "metadata \<Rightarrow> metadata \<Rightarrow> bool" where
  "contains_pairs m f \<longleftrightarrow> f \<subseteq>\<^sub>m m"

definition ann_metadata :: metadata where
  "ann_metadata = [ascii ''name'' \<mapsto> JStr (ascii ''Ann'')]"

text \<open>
  Three rows about Ann: the first embedding is parallel to the query vector \<open>[1, 0]\<close>
  used below, the second is orthogonal to it, the third has norm zero.
\<close>

definition ann_table :: "(metadata, embedding) embeddedinfo list" where
  "ann_table =
     [\<lparr>t_id = 1, t_filename = ascii ''ann.md'', t_content = ascii ''alpha'',
       t_metadata = Some ann_metadata, t_embedding = Some [1, 0], t_created_at = []\<rparr>,
      \<lparr>t_id = 2, t_filename = ascii ''ann.md'', t_content = ascii ''beta'',
       t_metadata = Some ann_metadata, t_embedding = Some [0, 1], t_created_at = []\<rparr>,
      \<lparr>t_id = 3, t_filename = ascii ''ann.md'', t_content = ascii ''gamma'',
       t_metadata = Some ann_metadata, t_embedding = Some [0, 0], t_created_at = []\<rparr>]"

definition sample_services :: services where
  "sample_services =
     \<lparr>embeddings_create = (\<lambda>input. Inr [1, 0]),
      rpc_match_information = (\<lambda>q k t f. Inr \<lparr>rpc_data = Some [], rpc_error = None\<rparr>),
      chat_answer = (\<lambda>c q. Inr \<lparr>c_content = Some (ascii ''ok''), c_total_tokens = None\<rparr>),
      chat_extract = (\<lambda>c. Inl (ascii ''rate limit'')),
      json_parse = (\<lambda>t. Inr Map.empty),
      extname = (\<lambda>f. ascii ''.md''),
      to_fixed1 = (\<lambda>x. []),
      skills_type_error = ascii ''join is not a function'',
      to_text = (\<lambda>j. []),
      now_iso = ascii ''2025-01-01T00:00:00.000Z'',
      duration_text = ascii ''0.1'',
      read_info_files = Inr [\<lparr>f_filename = ascii ''a.md'', f_content = ascii ''hello world''\<rparr>],
      db_delete = Inr (Some (ascii ''permission denied'')),
      db_insert = (\<lambda>r. Inr None)\<rparr>"


definition sample_database :: database where
  "sample_database =
     \<lparr>table_rows =
        [\<lparr>t_id = 7, t_filename = ascii ''a.md'', t_content = ascii ''hello world'',
          t_metadata = None, t_embedding = Some [1, 0], t_created_at = []\<rparr>],
      next_id = 8\<rparr>"

section \<open>Properties of the tokenizer\<close>

lemma text_words_Nil: "text_words [] = []"
  by (simp add: text_words_def split_ws.simps)

lemma text_words_dropWhile: "text_words (dropWhile is_ws s) = text_words s"
proof (cases s)
  case Nil
  then show ?thesis by simp
next
  case (Cons c cs)
  show ?thesis
  proof (cases "is_ws c")
    case True
    have "split_ws (c # cs) = [] # split_ws (dropWhile is_ws cs)"
      using True by (subst split_ws.simps) simp
    then show ?thesis using True Cons by (simp add: text_words_def)
  next
    case False
    then show ?thesis using Cons by simp
  qed
qed

lemma text_words_ws_Cons: "is_ws c \<Longrightarrow> text_words (c # cs) = text_words cs"
  using text_words_dropWhile [of "c # cs"] text_words_dropWhile [of cs] by simp

lemma text_words_word_append:
  assumes "w \<noteq> []" and "\<forall>c\<in>set w. \<not> is_ws c" and "s = [] \<or> is_ws (hd s)"
  shows "text_words (w @ s) = w # text_words s"
proof -
  have tw: "takeWhile (\<lambda>c. \<not> is_ws c) (w @ s) = w"
    using assms(2,3) by (cases s) (simp_all add: takeWhile_append2 takeWhile_eq_all_conv)
  have dw: "dropWhile (\<lambda>c. \<not> is_ws c) (w @ s) = s"
    using assms(2,3) by (cases s) (simp_all add: dropWhile_append2)
  show ?thesis
  proof (cases s)
    case Nil
    have dw0: "dropWhile (\<lambda>c. \<not> is_ws c) (w @ s) = []" using dw Nil by simp
    have "split_ws (w @ s) = [w]"
      by (subst split_ws.simps) (simp only: dw0 tw list.case)
    then have "text_words (w @ s) = [w]" using assms(1) by (simp add: text_words_def)
    then show ?thesis using Nil by (simp add: text_words_Nil)
  next
    case (Cons x r)
    then have x: "is_ws x" using assms(3) by simp
    have "split_ws (w @ s) = w # split_ws (dropWhile is_ws r)"
      using tw dw Cons by (subst split_ws.simps) simp
    then have "text_words (w @ s) = w # text_words (dropWhile is_ws r)"
      using assms(1) by (simp add: text_words_def)
    also have "text_words (dropWhile is_ws r) = text_words s"
      using Cons x by (simp add: text_words_dropWhile text_words_ws_Cons)
    finally show ?thesis .
  qed
qed

lemma is_ws_space: "is_ws 0x0020"
  by (simp add: is_ws_def)

lemma text_words_join_sp:
  "\<forall>w\<in>set ws. word_ok w \<Longrightarrow> text_words (join_sp ws) = ws"
proof (induction ws rule: join_sp.induct)
  case 1
  then show ?case by (simp add: text_words_Nil)
next
  case (2 w)
  then show ?case
    using text_words_word_append [of w "[]"] by (simp add: word_ok_def text_words_Nil)
next
  case (3 w v ws)
  have "text_words (w @ 0x0020 # join_sp (v # ws)) = w # text_words (0x0020 # join_sp (v # ws))"
    using 3(2) by (intro text_words_word_append) (simp_all add: word_ok_def is_ws_space)
  then show ?case using 3 by (simp add: text_words_ws_Cons is_ws_space)
qed

lemma split_ws_no_ws: "w \<in> set (split_ws s) \<Longrightarrow> \<forall>c\<in>set w. \<not> is_ws c"
proof (induction s rule: split_ws.induct)
  case (1 s)
  show ?case
  proof (cases "dropWhile (\<lambda>c. \<not> is_ws c) s")
    case Nil
    then have "split_ws s = [takeWhile (\<lambda>c. \<not> is_ws c) s]"
      by (subst split_ws.simps) (simp only: list.case)
    then show ?thesis using 1(2) by (auto dest: set_takeWhileD)
  next
    case (Cons x r)
    then have "split_ws s = takeWhile (\<lambda>c. \<not> is_ws c) s # split_ws (dropWhile is_ws r)"
      by (subst split_ws.simps) (simp only: list.case)
    then show ?thesis using 1(1) [OF Cons] 1(2) by (auto dest: set_takeWhileD)
  qed
qed

lemma text_words_ok: "w \<in> set (text_words s) \<Longrightarrow> word_ok w"
  using split_ws_no_ws [of w s] by (auto simp: text_words_def word_ok_def)

lemma text_words_snoc_ws: "is_ws c \<Longrightarrow> text_words (t @ [c]) = text_words t"
proof (induction t rule: length_induct)
  case (1 t)
  show ?case
  proof (cases t)
    case Nil
    then show ?thesis using 1(2) by (simp add: text_words_ws_Cons)
  next
    case (Cons x r)
    show ?thesis
    proof (cases "is_ws x")
      case True
      then show ?thesis using Cons 1 by (simp add: text_words_ws_Cons)
    next
      case False
      define w where "w = takeWhile (\<lambda>c. \<not> is_ws c) t"
      define s where "s = dropWhile (\<lambda>c. \<not> is_ws c) t"
      have t: "t = w @ s" by (simp add: w_def s_def)
      have w: "w \<noteq> []" "\<forall>c\<in>set w. \<not> is_ws c"
        using False Cons by (auto simp: w_def dest: set_takeWhileD)
      have s: "s = [] \<or> is_ws (hd s)"
        using hd_dropWhile [of "\<lambda>c. \<not> is_ws c" t] by (auto simp: s_def)
      have len: "length s < length t" using t w by simp
      have "text_words (t @ [c]) = text_words (w @ (s @ [c]))" using t by simp
      also have "\<dots> = w # text_words (s @ [c])"
        using w s 1(2) by (intro text_words_word_append) (auto simp: hd_append)
      also have "text_words (s @ [c]) = text_words s"
        using 1(1) len 1(2) by simp
      also have "w # text_words s = text_words (w @ s)"
        using w s by (simp add: text_words_word_append)
      finally show ?thesis using t by simp
    qed
  qed
qed

lemma text_words_strip_end: "text_words (rev (dropWhile is_ws u)) = text_words (rev u)"
  by (induction u) (simp_all add: text_words_snoc_ws)

lemma text_words_trim: "text_words (trim s) = text_words s"
  by (simp add: trim_def text_words_strip_end text_words_dropWhile)

section \<open>Properties of the chunking loop\<close>

lemma chunk_loop_done:
  "\<not> startIndex < int (length words) \<Longrightarrow> chunk_loop words chunkSize overlap startIndex chunks = chunks"
  by (subst chunk_loop.simps) simp

lemma chunk_loop_step:
  "overlap < chunkSize \<Longrightarrow> startIndex < int (length words) \<Longrightarrow>
   chunk_loop words chunkSize overlap startIndex chunks =
   chunk_loop words chunkSize overlap (startIndex + (chunkSize - overlap))
     (chunks @ [join_sp (js_slice words startIndex (min (startIndex + chunkSize) (int (length words))))])"
  by (subst chunk_loop.simps) (simp add: Let_def)

lemma chunk_loop_break:
  "chunkSize \<le> overlap \<Longrightarrow> startIndex < int (length words) \<Longrightarrow>
   startIndex + (chunkSize - overlap) \<le> int (length chunks) \<Longrightarrow>
   chunk_loop words chunkSize overlap startIndex chunks =
   chunks @ [join_sp (js_slice words startIndex (min (startIndex + chunkSize) (int (length words))))]"
  by (subst chunk_loop.simps) (simp add: Let_def)

lemma length_chunk_loop:
  "overlap < chunkSize \<Longrightarrow>
   length (chunk_loop words chunkSize overlap startIndex chunks) =
   length chunks + nat (- ((startIndex - int (length words)) div (chunkSize - overlap)))"
proof (induction words chunkSize overlap startIndex chunks rule: chunk_loop.induct)
  case (1 words chunkSize overlap startIndex chunks)
  let ?s = "chunkSize - overlap" and ?n = "int (length words)"
  have s: "0 < ?s" using 1(2) by simp
  show ?case
  proof (cases "startIndex < ?n")
    case False
    then have "0 \<le> (startIndex - ?n) div ?s"
      using s by (simp add: pos_imp_zdiv_nonneg_iff)
    then show ?thesis using False by (simp add: chunk_loop_done)
  next
    case True
    have e: "startIndex + ?s - ?n = (startIndex - ?n) + ?s" by simp
    have ne: "?s \<noteq> 0" using s by simp
    have d: "(startIndex + ?s - ?n) div ?s = (startIndex - ?n) div ?s + 1"
      by (simp only: e div_add_self2 [OF ne])
    have neg: "(startIndex - ?n) div ?s < 0"
      using True s by (simp add: div_neg_pos_less0)
    have ih: "length (chunk_loop words chunkSize overlap (startIndex + ?s)
                 (chunks @ [join_sp (js_slice words startIndex (min (startIndex + chunkSize) ?n))])) =
              length (chunks @ [join_sp (js_slice words startIndex (min (startIndex + chunkSize) ?n))])
              + nat (- ((startIndex + ?s - ?n) div ?s))"
      using 1(1) [OF True refl refl refl refl refl _ 1(2)] 1(2) by simp
    show ?thesis
      using ih d neg by (simp add: chunk_loop_step [OF 1(2) True])
  qed
qed


lemma chunk_loop_append:
  "overlap < chunkSize \<Longrightarrow>
   chunk_loop words chunkSize overlap startIndex chunks =
   chunks @ chunk_loop words chunkSize overlap startIndex []"
proof (induction "nat (int (length words) - startIndex)" arbitrary: startIndex chunks rule: less_induct)
  case less
  show ?case
  proof (cases "startIndex < int (length words)")
    case False
    then show ?thesis by (simp add: chunk_loop_done)
  next
    case True
    let ?c = "join_sp (js_slice words startIndex (min (startIndex + chunkSize) (int (length words))))"
    let ?st = "startIndex + (chunkSize - overlap)"
    have m: "nat (int (length words) - ?st) < nat (int (length words) - startIndex)"
      using True less(2) by simp
    have "chunk_loop words chunkSize overlap startIndex chunks =
          chunk_loop words chunkSize overlap ?st (chunks @ [?c])"
      by (rule chunk_loop_step [OF less(2) True])
    also have "\<dots> = (chunks @ [?c]) @ chunk_loop words chunkSize overlap ?st []"
      by (rule less(1) [OF m less(2)])
    also have "\<dots> = chunks @ chunk_loop words chunkSize overlap ?st ([] @ [?c])"
      using less(1) [OF m less(2), of "[?c]"] by simp
    also have "chunk_loop words chunkSize overlap ?st ([] @ [?c]) =
               chunk_loop words chunkSize overlap startIndex []"
      by (rule chunk_loop_step [OF less(2) True, symmetric])
    finally show ?thesis .
  qed
qed

lemma js_slice_window:
  "js_slice ws (int a) (min (int a + int c) (int (length ws))) = take c (drop a ws)"
proof (cases "a \<le> length ws")
  case True
  then have "nat (min (int a + int c) (int (length ws)) - int a) = min c (length ws - a)"
    by arith
  then show ?thesis using True by (simp add: js_slice_def Let_def min_def)
next
  case False
  then show ?thesis by (simp add: js_slice_def Let_def min_def)
qed

lemma chunk_loop_step_nat:
  assumes "0 \<le> overlap" "overlap < chunkSize" "a < length words"
  shows "chunk_loop words chunkSize overlap (int a) chunks =
         chunk_loop words chunkSize overlap (int (a + nat (chunkSize - overlap)))
           (chunks @ [join_sp (take (nat chunkSize) (drop a words))])"
proof -
  have "js_slice words (int a) (min (int a + chunkSize) (int (length words))) =
        take (nat chunkSize) (drop a words)"
    using js_slice_window [of words a "nat chunkSize"] assms by simp
  moreover have "int a + (chunkSize - overlap) = int (a + nat (chunkSize - overlap))"
    using assms by simp
  ultimately show ?thesis
    using chunk_loop_step [of overlap chunkSize "int a" words chunks] assms by simp
qed

lemma nth_chunk_loop:
  assumes "0 \<le> overlap" "overlap < chunkSize"
  shows "k < length (chunk_loop words chunkSize overlap (int a) chunks) \<Longrightarrow>
         chunk_loop words chunkSize overlap (int a) chunks ! k =
         (if k < length chunks then chunks ! k
          else join_sp (take (nat chunkSize)
                 (drop (a + (k - length chunks) * nat (chunkSize - overlap)) words)))"
proof (induction "length words - a" arbitrary: a chunks rule: less_induct)
  case less
  show ?case
  proof (cases "a < length words")
    case False
    then show ?thesis using less(2) by (simp add: chunk_loop_done)
  next
    case True
    let ?s = "nat (chunkSize - overlap)"
    let ?c = "join_sp (take (nat chunkSize) (drop a words))"
    have s: "0 < ?s" using assms by simp
    have m: "length words - (a + ?s) < length words - a" using True s by simp
    have st: "chunk_loop words chunkSize overlap (int a) chunks =
              chunk_loop words chunkSize overlap (int (a + ?s)) (chunks @ [?c])"
      by (rule chunk_loop_step_nat [OF assms True])
    have k: "k < length (chunk_loop words chunkSize overlap (int (a + ?s)) (chunks @ [?c]))"
      using less(2) st by simp
    note ih = less(1) [OF m k]
    consider "k < length chunks" | "k = length chunks" | "length chunks < k" by linarith
    then show ?thesis
    proof cases
      case 1
      then show ?thesis using ih st by (simp add: nth_append)
    next
      case 2
      then show ?thesis using ih st by (simp add: nth_append)
    next
      case 3
      then obtain j where j: "k = Suc (length chunks + j)"
        using less_imp_Suc_add by blast
      have e: "a + ?s + (k - length (chunks @ [?c])) * ?s = a + (k - length chunks) * ?s"
        unfolding j by simp
      have n1: "\<not> k < length (chunks @ [?c])" and n2: "\<not> k < length chunks"
        using 3 by simp_all
      have "chunk_loop words chunkSize overlap (int a) chunks ! k =
            join_sp (take (nat chunkSize) (drop (a + ?s + (k - length (chunks @ [?c])) * ?s) words))"
        using ih by (simp only: st n1 if_False)
      then show ?thesis by (simp only: e n2 if_False)
    qed
  qed
qed

lemma text_words_window:
  assumes "\<forall>w\<in>set ws. word_ok w"
  shows "text_words (join_sp (take c (drop a ws))) = take c (drop a ws)"
proof (rule text_words_join_sp)
  show "\<forall>w\<in>set (take c (drop a ws)). word_ok w"
    using assms by (meson in_set_takeD in_set_dropD)
qed

lemma deoverlap_chunk_loop:
  assumes "0 \<le> overlap" "overlap < chunkSize" "\<forall>w\<in>set words. word_ok w"
  shows "concat (map (\<lambda>c. drop (nat overlap) (text_words c))
           (chunk_loop words chunkSize overlap (int a) chunks)) =
         concat (map (\<lambda>c. drop (nat overlap) (text_words c)) chunks) @ drop (a + nat overlap) words"
proof (induction "length words - a" arbitrary: a chunks rule: less_induct)
  case less
  show ?case
  proof (cases "a < length words")
    case False
    then show ?thesis by (simp add: chunk_loop_done)
  next
    case True
    let ?s = "nat (chunkSize - overlap)"
    let ?c = "join_sp (take (nat chunkSize) (drop a words))"
    let ?g = "\<lambda>c. drop (nat overlap) (text_words c)"
    have s: "0 < ?s" using assms by simp
    have c: "nat chunkSize = ?s + nat overlap" using assms by simp
    have m: "length words - (a + ?s) < length words - a" using True s by simp
    have g: "?g ?c = take ?s (drop (a + nat overlap) words)"
      by (simp add: text_words_window [OF assms(3)] drop_take c add.commute)
    have d: "drop (a + ?s + nat overlap) words = drop ?s (drop (a + nat overlap) words)"
      by (simp add: ac_simps)
    have "concat (map ?g (chunk_loop words chunkSize overlap (int a) chunks)) =
          concat (map ?g (chunk_loop words chunkSize overlap (int (a + ?s)) (chunks @ [?c])))"
      by (simp only: chunk_loop_step_nat [OF assms(1,2) True])
    also have "\<dots> = concat (map ?g (chunks @ [?c])) @ drop (a + ?s + nat overlap) words"
      by (rule less(1) [OF m])
    also have "\<dots> = concat (map ?g chunks) @ (?g ?c @ drop (a + ?s + nat overlap) words)"
      by simp
    also have "?g ?c @ drop (a + ?s + nat overlap) words = drop (a + nat overlap) words"
      by (simp only: g d append_take_drop_id)
    finally show ?thesis .
  qed
qed

lemma chunk_loop_index_bound:
  assumes "0 \<le> overlap" "overlap < chunkSize"
  shows "k < length (chunk_loop words chunkSize overlap (int a) chunks) \<Longrightarrow> length chunks \<le> k \<Longrightarrow>
         a + (k - length chunks) * nat (chunkSize - overlap) < length words"
proof (induction "length words - a" arbitrary: a chunks rule: less_induct)
  case less
  show ?case
  proof (cases "a < length words")
    case False
    then show ?thesis using less(2,3) by (simp add: chunk_loop_done)
  next
    case True
    let ?s = "nat (chunkSize - overlap)"
    let ?c = "join_sp (take (nat chunkSize) (drop a words))"
    have s: "0 < ?s" using assms by simp
    have m: "length words - (a + ?s) < length words - a" using True s by simp
    have k: "k < length (chunk_loop words chunkSize overlap (int (a + ?s)) (chunks @ [?c]))"
      using less(2) by (simp only: chunk_loop_step_nat [OF assms True])
    show ?thesis
    proof (cases "k = length chunks")
      case True
      then show ?thesis using \<open>a < length words\<close> by simp
    next
      case False
      then obtain j where j: "k = Suc (length chunks + j)"
        using less(3) less_imp_Suc_add [of "length chunks" k] by auto
      have "length (chunks @ [?c]) \<le> k" using j by simp
      from less(1) [OF m k this]
      have "a + ?s + (k - length (chunks @ [?c])) * ?s < length words" .
      then show ?thesis unfolding j by simp
    qed
  qed
qed

subsection \<open>Claims about the chunker\<close>

text \<open>
  C6.  \<^verbatim>\<open>chunkText\<close> is a total function: the loop \<^const>\<open>chunk_loop\<close> is defined
  with a termination proof that covers every text and all integers \<^verbatim>\<open>chunkSize\<close>
  and \<^verbatim>\<open>overlap\<close>.  When the text has more words than \<^verbatim>\<open>chunkSize\<close> and
  \<^verbatim>\<open>overlap >= chunkSize\<close>, the guard fires in the first iteration: the result is
  exactly the first chunk (and no chunk at all in the degenerate case of a text without
  words and a negative \<^verbatim>\<open>chunkSize\<close>, where the loop body is never entered).
\<close>

theorem chunkText_overlap_guard:
  assumes "chunkSize < int (length (text_words text))" and "chunkSize \<le> overlap"
  shows "chunkText text chunkSize overlap =
         (if text_words text = [] then []
          else [join_sp (js_slice (text_words text) 0
                  (min chunkSize (int (length (text_words text)))))])"
proof (cases "text_words text = []")
  case True
  then show ?thesis using assms by (simp add: chunkText_def chunk_loop_done)
next
  case False
  then have pos: "0 < int (length (text_words text))" by simp
  have "chunk_loop (text_words text) chunkSize overlap 0 [] =
        [] @ [join_sp (js_slice (text_words text) 0
                  (min (0 + chunkSize) (int (length (text_words text)))))]"
    using assms(2) by (intro chunk_loop_break [OF assms(2) pos]) simp
  then show ?thesis using assms(1) False by (simp add: chunkText_def)
qed

theorem chunkText_overlap_guard_witness:
  "4 < int (length (text_words (ascii ''a b c d e''))) \<and> (4::int) \<le> 7 \<and>
   chunkText (ascii ''a b c d e'') 4 7 = [ascii ''a b c d'']"
proof -
  have h1: "4 < int (length (text_words (ascii ''a b c d e'')))"
    by (simp add: ascii_def text_words_def split_ws.simps is_ws_def)
  have h2: "(4::int) \<le> 7" by simp
  have "chunkText (ascii ''a b c d e'') 4 7 = [ascii ''a b c d'']"
    using chunkText_overlap_guard [OF h1 h2]
    by (simp add: ascii_def text_words_def split_ws.simps is_ws_def js_slice_def)
  then show ?thesis using h1 h2 by simp
qed

text \<open>
  C1 (as the code behaves).  A text with at most \<^verbatim>\<open>chunkSize\<close> words gives the single
  chunk \<^verbatim>\<open>text.trim()\<close>.  A text with \<open>N > chunkSize\<close> words and
  \<^verbatim>\<open>overlap < chunkSize\<close> gives one chunk per window start
  \<open>0, step, 2 * step, \<dots>\<close> below \<open>N\<close>, where \<open>step = chunkSize - overlap\<close>:
  exactly \<open>\<lceil>N / (chunkSize - overlap)\<rceil>\<close> chunks.
\<close>

theorem chunkText_count:
  "(int (length (text_words text)) \<le> chunkSize \<longrightarrow>
      chunkText text chunkSize overlap = [trim text]) \<and>
   (chunkSize < int (length (text_words text)) \<and> overlap < chunkSize \<longrightarrow>
      int (length (chunkText text chunkSize overlap)) =
      \<lceil>real_of_int (int (length (text_words text))) / real_of_int (chunkSize - overlap)\<rceil>)"
proof (intro conjI impI)
  assume "int (length (text_words text)) \<le> chunkSize"
  then show "chunkText text chunkSize overlap = [trim text]"
    by (simp add: chunkText_def)
next
  let ?n = "int (length (text_words text))"
  assume a: "chunkSize < ?n \<and> overlap < chunkSize"
  then have s: "0 < chunkSize - overlap" by simp
  have "(- ?n) div (chunkSize - overlap) \<le> 0"
    using s by (simp add: div_nonpos_pos_le0)
  then have "int (length (chunkText text chunkSize overlap)) = - ((- ?n) div (chunkSize - overlap))"
    using a length_chunk_loop [of overlap chunkSize "text_words text" 0 "[]"]
    by (simp add: chunkText_def)
  then show "int (length (chunkText text chunkSize overlap)) =
             \<lceil>real_of_int ?n / real_of_int (chunkSize - overlap)\<rceil>"
    by (simp only: ceiling_divide_eq_div)
qed

theorem chunkText_count_witness:
  "(int (length (text_words (ascii '' a b ''))) \<le> 5 \<and>
      chunkText (ascii '' a b '') 5 2 = [ascii ''a b'']) \<and>
   ((2 < int (length (text_words (ascii ''a b c''))) \<and> (1::int) < 2) \<and>
      int (length (chunkText (ascii ''a b c'') 2 1)) = 3)"
proof -
  have h1: "int (length (text_words (ascii '' a b ''))) \<le> 5"
    by (simp add: ascii_def text_words_def split_ws.simps is_ws_def)
  have h2: "2 < int (length (text_words (ascii ''a b c''))) \<and> (1::int) < 2"
    by (simp add: ascii_def text_words_def split_ws.simps is_ws_def)
  have n: "int (length (text_words (ascii ''a b c''))) = 3"
    by (simp add: ascii_def text_words_def split_ws.simps is_ws_def)
  have t: "trim (ascii '' a b '') = ascii ''a b''"
    by (simp add: ascii_def trim_def is_ws_def)
  have c1: "chunkText (ascii '' a b '') 5 2 = [ascii ''a b'']"
    using chunkText_count [of "ascii '' a b ''" 5 2] h1 t by simp
  have c2: "int (length (chunkText (ascii ''a b c'') 2 1)) = 3"
    using chunkText_count [of "ascii ''a b c''" 2 1] h2 n by simp
  show ?thesis using h1 h2 c1 c2 by simp
qed

text \<open>
  C1 as stated fails: the three-word text \<^verbatim>\<open>"a b c"\<close> with \<^verbatim>\<open>chunkSize = 2\<close> and
  \<^verbatim>\<open>overlap = 1\<close> gives the three chunks \<^verbatim>\<open>"a b"\<close>, \<^verbatim>\<open>"b c"\<close>, \<^verbatim>\<open>"c"\<close>,
  while \<open>\<lceil>(N - C) / (C - O)\<rceil> + 1 = 2\<close>.
\<close>

theorem chunkText_count_counterexample:
  "2 < int (length (text_words (ascii ''a b c''))) \<and> (1::int) < 2 \<and>
   chunkText (ascii ''a b c'') 2 1 = [ascii ''a b'', ascii ''b c'', ascii ''c''] \<and>
   int (length (chunkText (ascii ''a b c'') 2 1)) \<noteq>
     \<lceil>real_of_int (int (length (text_words (ascii ''a b c''))) - 2) / real_of_int (2 - 1)\<rceil> + 1"
  by (simp add: ascii_def chunkText_def text_words_def split_ws.simps is_ws_def
        chunk_loop.simps js_slice_def)

text \<open>
  C7 (as the code behaves).  For \<open>0 \<le> overlap < chunkSize\<close>, every chunk without its
  first \<open>chunkSize - overlap\<close> words is the beginning of the next chunk, namely its first
  \<open>overlap\<close> words or, when the next chunk is shorter than \<open>overlap\<close>, the whole of
  it.  When \<open>2 * overlap \<le> chunkSize\<close> and the next chunk is not the final chunk, these
  shared words are exactly \<open>overlap\<close> many.
\<close>

theorem chunkText_consecutive_overlap:
  assumes "0 \<le> overlap" and "overlap < chunkSize"
    and "Suc i < length (chunkText text chunkSize overlap)"
  shows "drop (nat (chunkSize - overlap)) (text_words (chunkText text chunkSize overlap ! i)) =
           take (nat overlap) (text_words (chunkText text chunkSize overlap ! Suc i)) \<and>
         (2 * overlap \<le> chunkSize \<and> Suc (Suc i) < length (chunkText text chunkSize overlap) \<longrightarrow>
           length (take (nat overlap) (text_words (chunkText text chunkSize overlap ! Suc i))) =
           nat overlap)"
proof (cases "int (length (text_words text)) \<le> chunkSize")
  case True
  then show ?thesis using assms(3) by (simp add: chunkText_def)
next
  case False
  let ?ws = "text_words text"
  let ?s = "nat (chunkSize - overlap)"
  let ?cs = "chunk_loop ?ws chunkSize overlap (int 0) []"
  have ok: "\<forall>w\<in>set ?ws. word_ok w" by (simp add: text_words_ok)
  have e: "chunkText text chunkSize overlap = ?cs"
    using False by (simp add: chunkText_def)
  have c: "nat chunkSize = ?s + nat overlap" using assms by simp
  have len: "Suc i < length ?cs" using assms(3) e by simp
  have w: "text_words (?cs ! k) = take (nat chunkSize) (drop (k * ?s) ?ws)" if "k < length ?cs" for k
    using nth_chunk_loop [OF assms(1,2) that] by (simp add: text_words_window [OF ok])
  have wi: "text_words (?cs ! i) = take (nat chunkSize) (drop (i * ?s) ?ws)"
    using w [of i] len by simp
  have wsi: "text_words (?cs ! Suc i) = take (nat chunkSize) (drop (Suc i * ?s) ?ws)"
    using w [of "Suc i"] len by simp
  have shared: "drop ?s (text_words (?cs ! i)) = take (nat overlap) (text_words (?cs ! Suc i))"
    unfolding wi wsi by (simp add: drop_take c add.commute min_def)
  have full: "length (take (nat overlap) (text_words (?cs ! Suc i))) = nat overlap"
    if h: "2 * overlap \<le> chunkSize \<and> Suc (Suc i) < length ?cs"
  proof -
    have "0 + (Suc (Suc i) - length ([]::jsstring list)) * ?s < length ?ws"
      using h by (intro chunk_loop_index_bound [OF assms(1,2)]) simp_all
    then have b: "Suc i * ?s + ?s < length ?ws" by simp
    have "nat overlap \<le> ?s" using h assms by linarith
    then have "nat overlap \<le> length ?ws - Suc i * ?s" using b by linarith
    moreover have "nat overlap \<le> nat chunkSize" using c by simp
    ultimately have "nat overlap \<le> min (length ?ws - Suc i * ?s) (nat chunkSize)"
      by (rule min.boundedI)
    then have "min (min (length ?ws - Suc i * ?s) (nat chunkSize)) (nat overlap) = nat overlap"
      by (rule min_absorb2)
    then show ?thesis unfolding wsi by (simp only: length_take length_drop)
  qed
  show ?thesis using shared full unfolding e by blast
qed

theorem chunkText_consecutive_overlap_witness:
  "(0::int) \<le> 1 \<and> (1::int) < 3 \<and>
   Suc 0 < length (chunkText (ascii ''a b c d e f g'') 3 1) \<and>
   (2 * (1::int) \<le> 3 \<and> Suc (Suc 0) < length (chunkText (ascii ''a b c d e f g'') 3 1)) \<and>
   drop (nat (3 - 1)) (text_words (chunkText (ascii ''a b c d e f g'') 3 1 ! 0)) =
     take (nat 1) (text_words (chunkText (ascii ''a b c d e f g'') 3 1 ! Suc 0)) \<and>
   length (take (nat 1) (text_words (chunkText (ascii ''a b c d e f g'') 3 1 ! Suc 0))) = nat 1"
proof -
  have h1: "(0::int) \<le> 1" and h2: "(1::int) < 3" by simp_all
  have cs: "chunkText (ascii ''a b c d e f g'') 3 1 =
            [ascii ''a b c'', ascii ''c d e'', ascii ''e f g'', ascii ''g'']"
    by (simp add: ascii_def chunkText_def text_words_def split_ws.simps is_ws_def
          chunk_loop.simps js_slice_def)
  have h3: "Suc 0 < length (chunkText (ascii ''a b c d e f g'') 3 1)"
    by (simp add: cs)
  have h4: "2 * (1::int) \<le> 3 \<and> Suc (Suc 0) < length (chunkText (ascii ''a b c d e f g'') 3 1)"
    by (simp add: cs)
  show ?thesis
    using chunkText_consecutive_overlap [OF h1 h2 h3] h1 h2 h3 h4 by blast
qed

text \<open>
  C7 as stated fails when \<open>2 * overlap > chunkSize\<close>: the five-word text
  \<^verbatim>\<open>"a b c d e"\<close> with \<^verbatim>\<open>chunkSize = 4\<close> and \<^verbatim>\<open>overlap = 3\<close> gives five chunks, and
  the chunk at index 3, which is not the final chunk, has only the two words \<^verbatim>\<open>d e\<close>,
  so it cannot share three words with the chunk \<^verbatim>\<open>c d e\<close> before it.
\<close>

theorem chunkText_consecutive_overlap_counterexample:
  "(0::int) \<le> 3 \<and> (3::int) < 4 \<and> Suc 3 < length (chunkText (ascii ''a b c d e'') 4 3) \<and>
   text_words (chunkText (ascii ''a b c d e'') 4 3 ! 2) = [ascii ''c'', ascii ''d'', ascii ''e''] \<and>
   text_words (chunkText (ascii ''a b c d e'') 4 3 ! 3) = [ascii ''d'', ascii ''e''] \<and>
   length (text_words (chunkText (ascii ''a b c d e'') 4 3 ! 3)) < 3"
  by (simp add: ascii_def chunkText_def text_words_def split_ws.simps is_ws_def
        chunk_loop.simps js_slice_def)

text \<open>
  C8 (as the code behaves).  For \<open>0 \<le> overlap < chunkSize\<close>, the words of the first
  chunk followed by the words of every later chunk without its first \<open>overlap\<close> words
  are the words of the text.
\<close>

theorem chunkText_deoverlap:
  assumes "0 \<le> overlap" and "overlap < chunkSize"
  shows "(case chunkText text chunkSize overlap of
            [] \<Rightarrow> []
          | c # cs \<Rightarrow> text_words c @ concat (map (\<lambda>c'. drop (nat overlap) (text_words c')) cs)) =
         text_words text"
proof (cases "int (length (text_words text)) \<le> chunkSize")
  case True
  then show ?thesis by (simp add: chunkText_def text_words_trim)
next
  case False
  let ?ws = "text_words text"
  let ?s = "nat (chunkSize - overlap)"
  let ?c = "join_sp (take (nat chunkSize) (drop 0 ?ws))"
  have ok: "\<forall>w\<in>set ?ws. word_ok w" by (simp add: text_words_ok)
  have pos: "0 < length ?ws" using False assms by linarith
  have c: "?s + nat overlap = nat chunkSize" using assms by simp
  have "chunkText text chunkSize overlap = chunk_loop ?ws chunkSize overlap (int 0) []"
    using False by (simp add: chunkText_def)
  also have "\<dots> = chunk_loop ?ws chunkSize overlap (int (0 + ?s)) ([] @ [?c])"
    by (rule chunk_loop_step_nat [OF assms pos])
  also have "\<dots> = ([] @ [?c]) @ chunk_loop ?ws chunkSize overlap (int (0 + ?s)) []"
    by (rule chunk_loop_append [OF assms(2)])
  finally have e: "chunkText text chunkSize overlap =
                   ?c # chunk_loop ?ws chunkSize overlap (int (0 + ?s)) []" by simp
  have "concat (map (\<lambda>c'. drop (nat overlap) (text_words c'))
          (chunk_loop ?ws chunkSize overlap (int (0 + ?s)) [])) = drop (nat chunkSize) ?ws"
    using deoverlap_chunk_loop [OF assms ok, of "0 + ?s" "[]"] c by simp
  moreover have "text_words ?c = take (nat chunkSize) ?ws"
    using text_words_window [OF ok, of "nat chunkSize" 0] by simp
  ultimately show ?thesis by (simp add: e)
qed

theorem chunkText_deoverlap_witness:
  "(0::int) \<le> 1 \<and> (1::int) < 3 \<and>
   (case chunkText (ascii ''a b c d e'') 3 1 of
      [] \<Rightarrow> []
    | c # cs \<Rightarrow> text_words c @ concat (map (\<lambda>c'. drop (nat 1) (text_words c')) cs)) =
   [ascii ''a'', ascii ''b'', ascii ''c'', ascii ''d'', ascii ''e'']"
proof -
  have h1: "(0::int) \<le> 1" and h2: "(1::int) < 3" by simp_all
  have w: "text_words (ascii ''a b c d e'') =
           [ascii ''a'', ascii ''b'', ascii ''c'', ascii ''d'', ascii ''e'']"
    by (simp add: ascii_def text_words_def split_ws.simps is_ws_def)
  show ?thesis
    using chunkText_deoverlap [OF h1 h2, of "ascii ''a b c d e''"] h2 by (simp only: w simp_thms)
qed

text \<open>
  C8 as stated fails for a negative overlap, where consecutive windows leave a gap: the
  text \<^verbatim>\<open>"a b c d e"\<close> with \<^verbatim>\<open>chunkSize = 2\<close> and \<^verbatim>\<open>overlap = -1\<close> gives the
  chunks \<^verbatim>\<open>"a b"\<close> and \<^verbatim>\<open>"d e"\<close>, and the word \<^verbatim>\<open>c\<close> is lost.
\<close>

theorem chunkText_deoverlap_counterexample:
  "(- 1 :: int) < 2 \<and>
   chunkText (ascii ''a b c d e'') 2 (- 1) = [ascii ''a b'', ascii ''d e''] \<and>
   text_words (ascii ''a b'') @ drop (nat (- 1)) (text_words (ascii ''d e'')) =
     [ascii ''a'', ascii ''b'', ascii ''d'', ascii ''e''] \<and>
   text_words (ascii ''a b'') @ drop (nat (- 1)) (text_words (ascii ''d e'')) \<noteq>
     text_words (ascii ''a b c d e'')"
  by (simp add: ascii_def chunkText_def text_words_def split_ws.simps is_ws_def
        chunk_loop.simps js_slice_def)

section \<open>Properties of the similarity search\<close>

lemma map_filter_member:
  "y \<in> set (List.map_filter f xs) \<Longrightarrow> \<exists>x\<in>set xs. f x = Some y"
  by (induction xs) (auto split: option.splits)

lemma float8_less_Num:
  "Num t < s \<longleftrightarrow> (\<exists>x. s = Num x \<and> t < x) \<or> s = NaN"
  by (cases s) (auto simp: less_float8_def)

lemma float8_less_NaN: "\<not> NaN < s"
  by (cases s) (simp_all add: less_float8_def)

lemma where_clause_selected:
  assumes "where_clause cosine_distance jsonb_contains query_embedding match_threshold filter' row
             = Some (d, row')"
  shows "match_threshold < one_minus d \<and> row' = row \<and>
         (\<forall>f. filter' = Some f \<longrightarrow> (\<exists>m. t_metadata row = Some m \<and> jsonb_contains m f))"
  using assms
  by (auto simp: where_clause_def Let_def split: option.splits if_splits)

lemma one_minus_antimono:
  "d1 \<le> d2 \<Longrightarrow>
   (case (one_minus d1, one_minus d2) of
      (Num x, Num y) \<Rightarrow> y \<le> x
    | (NaN, Num y) \<Rightarrow> False
    | (a, NaN) \<Rightarrow> True)"
  by (cases d1; cases d2) simp_all

lemma match_information_rows:
  assumes "match_information cosine_distance jsonb_contains table query_embedding match_count
             match_threshold filter' = Inr rows"
  shows "\<exists>ordered. rows = map select_list ordered \<and>
           sorted (map fst ordered) \<and> length ordered \<le> nat match_count \<and> 0 \<le> match_count \<and>
           (\<forall>p\<in>set ordered. snd p \<in> set table \<and> match_threshold < one_minus (fst p) \<and>
              (\<forall>f. filter' = Some f \<longrightarrow>
                 (\<exists>m. t_metadata (snd p) = Some m \<and> jsonb_contains m f)))"
proof -
  define cands where "cands = List.map_filter
      (where_clause cosine_distance jsonb_contains query_embedding match_threshold filter') table"
  define ordered where "ordered = take (nat match_count) (sort_key fst cands)"
  have mc: "0 \<le> match_count" and rows: "rows = map select_list ordered"
    using assms by (auto simp: match_information_def cands_def ordered_def split: if_splits)
  have "\<forall>p\<in>set cands. snd p \<in> set table \<and> match_threshold < one_minus (fst p) \<and>
              (\<forall>f. filter' = Some f \<longrightarrow>
                 (\<exists>m. t_metadata (snd p) = Some m \<and> jsonb_contains m f))"
    unfolding cands_def
    by (auto dest!: map_filter_member dest: where_clause_selected)
  moreover have "set ordered \<subseteq> set cands"
    using set_take_subset [of "nat match_count" "sort_key fst cands"] by (simp add: ordered_def)
  ultimately have sel: "\<forall>p\<in>set ordered. snd p \<in> set table \<and>
              match_threshold < one_minus (fst p) \<and>
              (\<forall>f. filter' = Some f \<longrightarrow>
                 (\<exists>m. t_metadata (snd p) = Some m \<and> jsonb_contains m f))"
    by blast
  have "sorted (map fst (sort_key fst cands))" by (rule sorted_sort_key)
  then have srt: "sorted (map fst ordered)"
    by (simp add: ordered_def take_map [symmetric] sorted_wrt_take)
  have len: "length ordered \<le> nat match_count" by (simp add: ordered_def)
  show ?thesis
    by (intro exI [of _ ordered] conjI rows srt len mc sel)
qed

lemma match_information_returns:
  "0 \<le> match_count \<Longrightarrow>
   \<exists>rows. match_information cosine_distance jsonb_contains table query_embedding match_count
             match_threshold filter' = Inr rows"
  by (simp add: match_information_def)

lemma dist_parallel: "ideal_cosine_distance [1, 0] [1, 0] = Num 0"
  by (simp add: ideal_cosine_distance_def)

lemma dist_orthogonal: "ideal_cosine_distance [0, 1] [1, 0] = Num 1"
  by (simp add: ideal_cosine_distance_def)

lemma dist_zero_norm: "ideal_cosine_distance [0, 0] [1, 0] = NaN"
  by (simp add: ideal_cosine_distance_def)

lemma ann_search_unfiltered:
  "match_information ideal_cosine_distance contains_pairs ann_table [1, 0] 5 (Num 0.5) None =
     Inr [\<lparr>r_id = 1, r_content = ascii ''alpha'', r_metadata = Some ann_metadata,
           similarity = Num 1\<rparr>,
          \<lparr>r_id = 3, r_content = ascii ''gamma'', r_metadata = Some ann_metadata,
           similarity = NaN\<rparr>]"
  by (simp add: match_information_def ann_table_def where_clause_def Let_def select_list_def
        dist_parallel dist_orthogonal dist_zero_norm less_float8_def)

text \<open>
  C2 (as the code behaves).  The list that \<^verbatim>\<open>match_information\<close> returns has at most
  \<^verbatim>\<open>match_count\<close> rows.  Every returned similarity is a number strictly above
  \<^verbatim>\<open>match_threshold\<close> or is NaN, which PostgreSQL compares as greater than every
  number.  The rows are in ascending order of distance with NaN last: the rows with a
  number as similarity come first, in descending order of similarity, and the rows with
  similarity NaN follow them.
\<close>

theorem match_information_result:
  assumes "match_information cosine_distance jsonb_contains table query_embedding match_count
             (Num match_threshold) filter' = Inr rows"
  shows "(\<forall>r\<in>set rows. (\<exists>x. similarity r = Num x \<and> match_threshold < x) \<or> similarity r = NaN) \<and>
         sorted_wrt (\<lambda>a b. case (similarity a, similarity b) of
                              (Num x, Num y) \<Rightarrow> y \<le> x
                            | (NaN, Num y) \<Rightarrow> False
                            | (s, NaN) \<Rightarrow> True) rows \<and>
         int (length rows) \<le> match_count"
proof -
  from match_information_rows [OF assms] obtain ordered where
    rows: "rows = map select_list ordered" and srt: "sorted (map fst ordered)"
    and len: "length ordered \<le> nat match_count" and mc: "0 \<le> match_count"
    and sel: "\<forall>p\<in>set ordered. snd p \<in> set table \<and>
              Num match_threshold < one_minus (fst p) \<and>
              (\<forall>f. filter' = Some f \<longrightarrow>
                 (\<exists>m. t_metadata (snd p) = Some m \<and> jsonb_contains m f))"
    by blast
  have sim: "similarity (select_list p) = one_minus (fst p)"
    for p :: "float8 \<times> ('a, 'b) embeddedinfo"
    by (simp add: select_list_def)
  have thr: "\<forall>r\<in>set rows. (\<exists>x. similarity r = Num x \<and> match_threshold < x) \<or> similarity r = NaN"
    using sel by (auto simp: rows select_list_def float8_less_Num)
  have "sorted_wrt (\<lambda>p q. fst p \<le> fst q) ordered"
    using srt by (simp add: sorted_map)
  then have "sorted_wrt (\<lambda>p q. case (one_minus (fst p), one_minus (fst q)) of
                              (Num x, Num y) \<Rightarrow> y \<le> x
                            | (NaN, Num y) \<Rightarrow> False
                            | (s, NaN) \<Rightarrow> True) ordered"
    by (rule sorted_wrt_mono_rel [rotated]) (rule one_minus_antimono)
  then have ord: "sorted_wrt (\<lambda>a b. case (similarity a, similarity b) of
                              (Num x, Num y) \<Rightarrow> y \<le> x
                            | (NaN, Num y) \<Rightarrow> False
                            | (s, NaN) \<Rightarrow> True) rows"
    by (simp only: rows sorted_wrt_map sim)
  have "int (length rows) \<le> match_count" using len mc by (simp add: rows)
  then show ?thesis using thr ord by simp
qed

theorem match_information_result_witness:
  "match_information ideal_cosine_distance contains_pairs ann_table [1, 0] 5 (Num 0.5) None =
     Inr [\<lparr>r_id = 1, r_content = ascii ''alpha'', r_metadata = Some ann_metadata,
           similarity = Num 1\<rparr>,
          \<lparr>r_id = 3, r_content = ascii ''gamma'', r_metadata = Some ann_metadata,
           similarity = NaN\<rparr>] \<and>
   (0.5::real) < 1 \<and> (2::int) \<le> 5"
  using match_information_result [OF ann_search_unfiltered] ann_search_unfiltered by simp

text \<open>
  C2 as stated fails when a stored vector has norm zero: its distance and its similarity
  are NaN, the row passes the \<^verbatim>\<open>WHERE\<close> clause and is returned last, after the row
  with similarity 1.  Its similarity is not a number above the threshold, and the list is
  not in descending order of similarity.
\<close>

theorem match_information_result_counterexample:
  "match_information ideal_cosine_distance contains_pairs ann_table [1, 0] 5 (Num 0.5) None =
     Inr [\<lparr>r_id = 1, r_content = ascii ''alpha'', r_metadata = Some ann_metadata,
           similarity = Num 1\<rparr>,
          \<lparr>r_id = 3, r_content = ascii ''gamma'', r_metadata = Some ann_metadata,
           similarity = NaN\<rparr>] \<and>
   ideal_cosine_distance [0, 0] [1, 0] = NaN \<and>
   similarity \<lparr>r_id = 3, r_content = ascii ''gamma'', r_metadata = Some ann_metadata,
           similarity = NaN\<rparr> = NaN \<and>
   \<not> similarity \<lparr>r_id = 3, r_content = ascii ''gamma'', r_metadata = Some ann_metadata,
           similarity = NaN\<rparr>
       \<le> similarity \<lparr>r_id = 1, r_content = ascii ''alpha'', r_metadata = Some ann_metadata,
           similarity = Num 1\<rparr>"
  using ann_search_unfiltered dist_zero_norm by simp

section \<open>Properties of retrieval and answer synthesis\<close>

text \<open>
  C5.  When the query is embedded and the search returns no row, \<^verbatim>\<open>getEnhancedAnswer\<close>
  returns the fixed could-not-find answer with \<^verbatim>\<open>sources: []\<close>,
  \<^verbatim>\<open>context: { retrievedCount: 0 }\<close> and \<^verbatim>\<open>error: null\<close>.
\<close>

theorem getEnhancedAnswer_no_match:
  assumes "embeddings_create sv question = Inr queryEmbedding"
    and "rpc_match_information sv queryEmbedding matchCount matchThreshold None =
           Inr \<lparr>rpc_data = Some [], rpc_error = None\<rparr>"
  shows "getEnhancedAnswer sv question matchCount matchThreshold =
           \<lparr>a_answer = Some no_information_answer, a_sources = Some [],
            a_context = Some \<lparr>retrievedCount = 0, ctx_model = None, tokensUsed = None\<rparr>,
            a_error = None\<rparr>"
  using assms
  by (simp add: getEnhancedAnswer_def retrieveInformation_def generateQueryEmbedding_def)

theorem getEnhancedAnswer_no_match_witness:
  "embeddings_create sample_services (ascii ''who?'') = Inr [1, 0] \<and>
   rpc_match_information sample_services [1, 0] 5 0.1 None =
     Inr \<lparr>rpc_data = Some [], rpc_error = None\<rparr> \<and>
   a_sources (getEnhancedAnswer sample_services (ascii ''who?'') 5 0.1) = Some [] \<and>
   a_context (getEnhancedAnswer sample_services (ascii ''who?'') 5 0.1) =
     Some \<lparr>retrievedCount = 0, ctx_model = None, tokensUsed = None\<rparr> \<and>
   a_error (getEnhancedAnswer sample_services (ascii ''who?'') 5 0.1) = None"
proof -
  have h1: "embeddings_create sample_services (ascii ''who?'') = Inr [1, 0]"
    by (simp add: sample_services_def)
  have h2: "rpc_match_information sample_services [1, 0] 5 0.1 None =
              Inr \<lparr>rpc_data = Some [], rpc_error = None\<rparr>"
    by (simp add: sample_services_def)
  show ?thesis
    using getEnhancedAnswer_no_match [OF h1 h2] h1 h2 by simp
qed








text \<open>
  C10.  When the embedding call throws, or the search throws or returns an error,
  \<^verbatim>\<open>retrieveInformation\<close> reports the error, and \<^verbatim>\<open>getEnhancedAnswer\<close> returns the
  same could-not-find answer as for an empty search result, with \<^verbatim>\<open>error: null\<close>.
\<close>

theorem getEnhancedAnswer_retrieval_failure:
  assumes "embeddings_create sv question = Inl e \<or>
           (\<exists>queryEmbedding. embeddings_create sv question = Inr queryEmbedding \<and>
              (rpc_match_information sv queryEmbedding matchCount matchThreshold None = Inl e \<or>
               (\<exists>d. rpc_match_information sv queryEmbedding matchCount matchThreshold None =
                      Inr \<lparr>rpc_data = d, rpc_error = Some e\<rparr>)))"
  shows "ret_error (retrieveInformation sv question matchCount matchThreshold None) = Some e \<and>
         getEnhancedAnswer sv question matchCount matchThreshold =
           \<lparr>a_answer = Some no_information_answer, a_sources = Some [],
            a_context = Some \<lparr>retrievedCount = 0, ctx_model = None, tokensUsed = None\<rparr>,
            a_error = None\<rparr>"
proof -
  have r: "ret_error (retrieveInformation sv question matchCount matchThreshold None) = Some e"
    using assms
    by (auto simp: retrieveInformation_def generateQueryEmbedding_def)
  then show ?thesis by (simp add: getEnhancedAnswer_def)
qed

theorem getEnhancedAnswer_retrieval_failure_witness:
  "embeddings_create (sample_services\<lparr>embeddings_create := \<lambda>input. Inl (ascii ''quota'')\<rparr>)
     (ascii ''who?'') = Inl (ascii ''quota'') \<and>
   ret_error (retrieveInformation
     (sample_services\<lparr>embeddings_create := \<lambda>input. Inl (ascii ''quota'')\<rparr>)
     (ascii ''who?'') 5 0.1 None) = Some (ascii ''quota'') \<and>
   getEnhancedAnswer (sample_services\<lparr>embeddings_create := \<lambda>input. Inl (ascii ''quota'')\<rparr>)
     (ascii ''who?'') 5 0.1 =
   getEnhancedAnswer sample_services (ascii ''who?'') 5 0.1"
proof -
  let ?sv = "sample_services\<lparr>embeddings_create := \<lambda>input. Inl (ascii ''quota'')\<rparr>"
  have h: "embeddings_create ?sv (ascii ''who?'') = Inl (ascii ''quota'')"
    by simp
  have n: "getEnhancedAnswer sample_services (ascii ''who?'') 5 0.1 =
           \<lparr>a_answer = Some no_information_answer, a_sources = Some [],
            a_context = Some \<lparr>retrievedCount = 0, ctx_model = None, tokensUsed = None\<rparr>,
            a_error = None\<rparr>"
    by (simp add: getEnhancedAnswer_def retrieveInformation_def generateQueryEmbedding_def
          sample_services_def)
  show ?thesis
    using getEnhancedAnswer_retrieval_failure [of ?sv "ascii ''who?''" "ascii ''quota''" 5 "0.1",
        OF disjI1, OF h] h n
    by simp
qed

section \<open>Properties of ingestion\<close>

lemma extraction_error_key:
  "ascii ''extraction_error'' \<noteq> ascii ''chunk_index''"
  "ascii ''extraction_error'' \<noteq> ascii ''chunk_number''"
  "ascii ''extraction_error'' \<noteq> ascii ''total_chunks''"
  "ascii ''extraction_error'' \<noteq> ascii ''chunk_size_chars''"
  "ascii ''extraction_error'' \<noteq> ascii ''chunk_size_words''"
  by (simp_all add: ascii_def)

lemma embed_chunks_success:
  assumes "fileMetadata (ascii ''extraction_error'') = Some x"
  shows "\<forall>chunk\<in>set rest. \<exists>v. embeddings_create sv chunk = Inr v \<Longrightarrow>
         \<exists>new. embed_chunks sv filename fileMetadata totalChunks i rest embeddedResults =
                  embeddedResults @ new \<and>
               length new = length rest \<and>
               (\<forall>r\<in>set new. e_metadata r (ascii ''extraction_error'') = Some x)"
proof (induction rest arbitrary: i embeddedResults)
  case Nil
  then show ?case by simp
next
  case (Cons chunk rest)
  then obtain v where v: "embeddings_create sv chunk = Inr v" by auto
  define r where "r = \<lparr>e_filename = filename, e_content = chunk, e_embedding = v,
               e_metadata = fileMetadata
                 (ascii ''chunk_index'' \<mapsto> JNum (real i),
                  ascii ''chunk_number'' \<mapsto> JNum (real (i + 1)),
                  ascii ''total_chunks'' \<mapsto> JNum (real totalChunks),
                  ascii ''chunk_size_chars'' \<mapsto> JNum (real (length chunk)),
                  ascii ''chunk_size_words'' \<mapsto> JNum (real (length (split_ws chunk)))),
               e_createdAt = now_iso sv\<rparr>"
  have step: "embed_chunks sv filename fileMetadata totalChunks i (chunk # rest) embeddedResults =
        embed_chunks sv filename fileMetadata totalChunks (i + 1) rest (embeddedResults @ [r])"
    using v by (simp add: generateEmbedding_def r_def)
  have rm: "e_metadata r (ascii ''extraction_error'') = Some x"
    using assms by (simp add: r_def extraction_error_key)
  from Cons.IH [of "i + 1" "embeddedResults @ [r]"] Cons.prems
  obtain new where new:
    "embed_chunks sv filename fileMetadata totalChunks (i + 1) rest (embeddedResults @ [r]) =
       (embeddedResults @ [r]) @ new"
    "length new = length rest"
    "\<forall>r\<in>set new. e_metadata r (ascii ''extraction_error'') = Some x"
    by auto
  show ?case
  proof (intro exI conjI)
    show "embed_chunks sv filename fileMetadata totalChunks i (chunk # rest) embeddedResults =
          embeddedResults @ (r # new)"
      using step new(1) by simp
    show "length (r # new) = length (chunk # rest)" using new(2) by simp
    show "\<forall>r\<in>set (r # new). e_metadata r (ascii ''extraction_error'') = Some x"
      using rm new(3) by simp
  qed
qed

lemma basic_metadata_dom:
  "dom (basic_metadata sv filename message) =
     {ascii ''source_filename'', ascii ''file_type'', ascii ''extracted_at'',
      ascii ''extraction_error''}"
  by (auto simp: basic_metadata_def)

lemma extract_failure_basic:
  assumes "chat_extract sv content = Inl message \<or>
           (\<exists>text. chat_extract sv content = Inr text \<and> json_parse sv text = Inl message)"
  shows "extractMetadataWithAI sv content filename = basic_metadata sv filename message"
  using assms by (auto simp: extractMetadataWithAI_def)

text \<open>
  The third way into the \<^verbatim>\<open>catch\<close> block: the model returns \<^verbatim>\<open>skills\<close> as a
  non-empty string, and the logging of the skills throws.
\<close>

lemma extractMetadataWithAI_skills_string:
  assumes "chat_extract sv content = Inr text" and "json_parse sv text = Inr extractedMetadata"
    and "extractedMetadata (ascii ''skills'') = Some (JStr s)" and "s \<noteq> []"
  shows "extractMetadataWithAI sv content filename =
         basic_metadata sv filename (skills_type_error sv)"
proof -
  have k: "ascii ''skills'' \<noteq> ascii ''source_filename''" "ascii ''skills'' \<noteq> ascii ''file_type''"
    "ascii ''skills'' \<noteq> ascii ''extracted_at''" "ascii ''skills'' \<noteq> ascii ''extraction_model''"
    by (simp_all add: ascii_def)
  show ?thesis
    using assms k by (simp add: extractMetadataWithAI_def skills_log_throws_def Let_def)
qed

text \<open>
  C4 (as the code behaves).  When the extraction call throws, or its output does not
  parse, \<^verbatim>\<open>extractMetadataWithAI\<close> returns exactly the four fields
  \<^verbatim>\<open>source_filename\<close>, \<^verbatim>\<open>file_type\<close>, \<^verbatim>\<open>extracted_at\<close> and
  \<^verbatim>\<open>extraction_error\<close>, the last one carrying the failure message; there is no
  \<^verbatim>\<open>extraction_model\<close> field and no content field.  Ingestion of the document goes on:
  when the embedding calls succeed, one record per chunk is appended to
  \<^verbatim>\<open>embeddedResults\<close>, each with the \<^verbatim>\<open>extraction_error\<close> field.
\<close>

theorem extractMetadataWithAI_failure:
  assumes "chat_extract sv content = Inl message \<or>
           (\<exists>text. chat_extract sv content = Inr text \<and> json_parse sv text = Inl message)"
  shows "extractMetadataWithAI sv content filename =
           [ascii ''source_filename'' \<mapsto> JStr filename,
            ascii ''file_type'' \<mapsto> JStr (file_type_of sv filename),
            ascii ''extracted_at'' \<mapsto> JStr (now_iso sv),
            ascii ''extraction_error'' \<mapsto> JStr message] \<and>
         dom (extractMetadataWithAI sv content filename) =
           {ascii ''source_filename'', ascii ''file_type'', ascii ''extracted_at'',
            ascii ''extraction_error''} \<and>
         ((\<forall>chunk\<in>set (chunkText content 300 50). \<exists>v. embeddings_create sv chunk = Inr v) \<longrightarrow>
          (\<exists>new. ingest_file sv embeddedResults \<lparr>f_filename = filename, f_content = content\<rparr> =
                   embeddedResults @ new \<and>
                 length new = length (chunkText content 300 50) \<and>
                 (\<forall>r\<in>set new. e_metadata r (ascii ''extraction_error'') = Some (JStr message))))"
proof -
  have b: "extractMetadataWithAI sv content filename = basic_metadata sv filename message"
    by (rule extract_failure_basic [OF assms])
  have e: "basic_metadata sv filename message (ascii ''extraction_error'') = Some (JStr message)"
    by (simp add: basic_metadata_def)
  have "\<exists>new. ingest_file sv embeddedResults \<lparr>f_filename = filename, f_content = content\<rparr> =
                   embeddedResults @ new \<and>
                 length new = length (chunkText content 300 50) \<and>
                 (\<forall>r\<in>set new. e_metadata r (ascii ''extraction_error'') = Some (JStr message))"
    if "\<forall>chunk\<in>set (chunkText content 300 50). \<exists>v. embeddings_create sv chunk = Inr v"
    using embed_chunks_success [where fileMetadata = "basic_metadata sv filename message"
        and x = "JStr message" and filename = filename
        and totalChunks = "length (chunkText content 300 50)" and i = 0
        and embeddedResults = embeddedResults, OF e that]
    by (simp add: ingest_file_def Let_def b)
  then show ?thesis
    using b basic_metadata_dom [of sv filename message] by (simp add: basic_metadata_def)
qed

theorem extractMetadataWithAI_failure_witness:
  "chat_extract sample_services (ascii ''hello world'') = Inl (ascii ''rate limit'') \<and>
   chunkText (ascii ''hello world'') 300 50 = [ascii ''hello world''] \<and>
   embeddings_create sample_services (ascii ''hello world'') = Inr [1, 0] \<and>
   extractMetadataWithAI sample_services (ascii ''hello world'') (ascii ''a.md'') =
     [ascii ''source_filename'' \<mapsto> JStr (ascii ''a.md''),
      ascii ''file_type'' \<mapsto> JStr (ascii ''md''),
      ascii ''extracted_at'' \<mapsto> JStr (ascii ''2025-01-01T00:00:00.000Z''),
      ascii ''extraction_error'' \<mapsto> JStr (ascii ''rate limit'')] \<and>
   length (ingest_file sample_services []
             \<lparr>f_filename = ascii ''a.md'', f_content = ascii ''hello world''\<rparr>) = 1"
proof -
  have h1: "chat_extract sample_services (ascii ''hello world'') = Inl (ascii ''rate limit'')"
    by (simp add: sample_services_def)
  have c: "chunkText (ascii ''hello world'') 300 50 = [ascii ''hello world'']"
    by (simp add: ascii_def chunkText_def text_words_def split_ws.simps is_ws_def trim_def)
  have h2: "embeddings_create sample_services (ascii ''hello world'') = Inr [1, 0]"
    by (simp add: sample_services_def)
  have h3: "\<forall>chunk\<in>set (chunkText (ascii ''hello world'') 300 50).
              \<exists>v. embeddings_create sample_services chunk = Inr v"
    using h2 by (simp add: c)
  have f: "file_type_of sample_services (ascii ''a.md'') = ascii ''md''"
    by (simp add: file_type_of_def sample_services_def ascii_def)
  have n: "now_iso sample_services = ascii ''2025-01-01T00:00:00.000Z''"
    by (simp add: sample_services_def)
  note t = extractMetadataWithAI_failure [of sample_services "ascii ''hello world''"
      "ascii ''rate limit''" "ascii ''a.md''" "[]", OF disjI1, OF h1]
  from t h3 obtain new where
    "ingest_file sample_services []
       \<lparr>f_filename = ascii ''a.md'', f_content = ascii ''hello world''\<rparr> = [] @ new"
    "length new = length (chunkText (ascii ''hello world'') 300 50)"
    by blast
  then have l: "length (ingest_file sample_services []
             \<lparr>f_filename = ascii ''a.md'', f_content = ascii ''hello world''\<rparr>) = 1"
    by (simp add: c)
  show ?thesis
    using t h1 c h2 l by (simp only: f n simp_thms)
qed

text \<open>
  C4 as stated fails: the metadata returned on failure has no model identifier
  (\<^verbatim>\<open>extraction_model\<close>), which only the success path adds.
\<close>

theorem extractMetadataWithAI_failure_counterexample:
  "chat_extract sample_services (ascii ''hello world'') = Inl (ascii ''rate limit'') \<and>
   extractMetadataWithAI sample_services (ascii ''hello world'') (ascii ''a.md'')
     (ascii ''extraction_model'') = None \<and>
   dom (extractMetadataWithAI sample_services (ascii ''hello world'') (ascii ''a.md'')) \<noteq>
     {ascii ''source_filename'', ascii ''file_type'', ascii ''extracted_at'',
      ascii ''extraction_model'', ascii ''extraction_error''}"
proof -
  have h1: "chat_extract sample_services (ascii ''hello world'') = Inl (ascii ''rate limit'')"
    by (simp add: sample_services_def)
  have b: "extractMetadataWithAI sample_services (ascii ''hello world'') (ascii ''a.md'') =
           basic_metadata sample_services (ascii ''a.md'') (ascii ''rate limit'')"
    by (rule extract_failure_basic [OF disjI1, OF h1])
  have m: "extractMetadataWithAI sample_services (ascii ''hello world'') (ascii ''a.md'')
     (ascii ''extraction_model'') = None"
    unfolding b by (simp add: basic_metadata_def ascii_def)
  then have "ascii ''extraction_model'' \<notin>
      dom (extractMetadataWithAI sample_services (ascii ''hello world'') (ascii ''a.md''))"
    by (simp add: domIff)
  then show ?thesis using h1 m by blast
qed

text \<open>
  C3.  \<^verbatim>\<open>runIngestion\<close> does not look at the value returned by \<^verbatim>\<open>clearDatabase\<close>.
  With a delete that fails, a directory with the one file \<^verbatim>\<open>a.md\<close> and a table that
  holds one row, \<^verbatim>\<open>clearDatabase\<close> reports \<^verbatim>\<open>success: false\<close>, yet
  \<^verbatim>\<open>runIngestion(true)\<close> processes the file, returns \<^verbatim>\<open>success: true\<close> and inserts
  the new row next to the old one.
\<close>

theorem runIngestion_clear_failure_ignored:
  "db_delete sample_services = Inr (Some (ascii ''permission denied'')) \<and>
   fst (clearDatabase sample_services sample_database) =
     \<lparr>cl_success = False, cl_error = Some (ascii ''permission denied'')\<rparr> \<and>
   success (fst (runIngestion sample_services True sample_database)) = True \<and>
   filesProcessed (fst (runIngestion sample_services True sample_database)) = Some 1 \<and>
   chunksCreated (fst (runIngestion sample_services True sample_database)) = Some 1 \<and>
   map t_id (table_rows (snd (runIngestion sample_services True sample_database))) = [7, 8] \<and>
   map t_content (table_rows (snd (runIngestion sample_services True sample_database))) =
     [ascii ''hello world'', ascii ''hello world'']"
proof -
  have c: "chunkText (ascii ''hello world'') 300 50 = [ascii ''hello world'']"
    by (simp add: ascii_def chunkText_def text_words_def split_ws.simps is_ws_def trim_def)
  have i: "ingestAndEmbed sample_services [] =
           Inr (ingest_file sample_services []
                  \<lparr>f_filename = ascii ''a.md'', f_content = ascii ''hello world''\<rparr>)"
    by (simp add: ingestAndEmbed_def sample_services_def)
  obtain r where r: "ingest_file sample_services []
                  \<lparr>f_filename = ascii ''a.md'', f_content = ascii ''hello world''\<rparr> = [r]"
    and rf: "e_filename r = ascii ''a.md''" and rc: "e_content r = ascii ''hello world''"
    by (simp add: ingest_file_def Let_def c generateEmbedding_def sample_services_def)
  have d: "clearDatabase sample_services sample_database =
           (\<lparr>cl_success = False, cl_error = Some (ascii ''permission denied'')\<rparr>, sample_database)"
    by (simp add: clearDatabase_def sample_services_def)
  have ins: "insertEmbeddedInfoToSupabase sample_services [r] sample_database =
             insert_row sample_services sample_database r"
    by (simp add: insertEmbeddedInfoToSupabase_def)
  have run: "runIngestion sample_services True sample_database =
        (\<lparr>success = True, filesProcessed = Some 1, chunksCreated = Some 1,
          duration = Some (duration_text sample_services @ ascii ''s''),
          i_message = ascii ''Ingestion completed successfully'', i_error = None\<rparr>,
         insert_row sample_services sample_database r)"
    by (simp add: runIngestion_def Let_def d i r ins)
  have rows: "table_rows (insert_row sample_services sample_database r) =
        table_rows sample_database @
          [\<lparr>t_id = 8, t_filename = e_filename r, t_content = e_content r,
            t_metadata = Some (e_metadata r), t_embedding = Some (e_embedding r),
            t_created_at = e_createdAt r\<rparr>]"
    by (simp add: insert_row_def sample_services_def sample_database_def)
  show ?thesis
    by (simp add: run d rows rc) (simp add: sample_services_def sample_database_def)
qed

end
